theory Spec2Isabelle
  imports Complex_Main "HOL-Library.Char_ord" "HOL-Library.List_Lexorder" "HOL-Library.Multiset"
begin

section \<open>Double-precision arithmetic of Python floats\<close>

text \<open>
  A Python float is an IEEE 754 binary64 number. \<open>pyfloat\<close> holds its value: a finite value
  as the real number it denotes, plus or minus infinity, or NaN. The sign of a zero is not
  recorded; no result of the functions of this file depends on it (a division by either zero
  raises, and \<open>10 ** -0.0\<close> is \<open>1.0\<close>). \<open>arith_error\<close> holds the two exceptions float
  arithmetic raises.
\<close>

datatype pyfloat = Fin real | PInf | MInf | NaN

datatype arith_error = OverflowError | ZeroDivisionError

text \<open>
  Rounding to nearest, ties to even. For \<open>a \<ge> 0\<close>, \<open>binade a\<close> is the exponent \<open>e\<close> with
  \<open>2^e \<le> a < 2^(e+1)\<close>, kept between -1022 (below it the doubles are subnormal) and 1023;
  \<open>quantum a = 2^(e-52)\<close> is the spacing of the doubles around \<open>a\<close>; \<open>rne x\<close> is the
  multiple of the quantum nearest to \<open>x\<close>, the even one when two are equally near.
\<close>

fun binade_from :: "nat \<Rightarrow> real \<Rightarrow> int" where
  "binade_from 0 a = - 1022"
| "binade_from (Suc n) a = (if 2 powi (int n - 1021) \<le> a then int n - 1021 else binade_from n a)"

definition binade :: "real \<Rightarrow> int" where
  "binade a = binade_from 2045 a"

definition quantum :: "real \<Rightarrow> real" where
  "quantum a = 2 powi (binade a - 52)"

definition round_half_even :: "real \<Rightarrow> int" where
  "round_half_even m =
     (let n = \<lfloor>m\<rfloor>; f = m - of_int n
      in if f < 1 / 2 then n else if 1 / 2 < f then n + 1 else if even n then n else n + 1)"

definition rne :: "real \<Rightarrow> real" where
  "rne x = sgn x * (of_int (round_half_even (\<bar>x\<bar> / quantum \<bar>x\<bar>)) * quantum \<bar>x\<bar>)"

text \<open>
  The result of an operation whose exact value is \<open>x\<close>: the rounded value, or an infinity
  when the rounded value reaches \<open>2^1024\<close>.
\<close>

definition float_limit :: real where
  "float_limit = 2 ^ 1024"

definition to_float :: "real \<Rightarrow> pyfloat" where
  "to_float x =
     (let y = rne x
      in if float_limit \<le> y then PInf else if y \<le> - float_limit then MInf else Fin y)"

text \<open>
  Negation, \<open>+\<close>, \<open>-\<close> and \<open>*\<close> of floats. They never raise: an overflow gives an
  infinity, and \<open>inf - inf\<close> and \<open>inf * 0\<close> give NaN.
\<close>

fun fneg :: "pyfloat \<Rightarrow> pyfloat" where
  "fneg (Fin x) = Fin (- x)"
| "fneg PInf = MInf"
| "fneg MInf = PInf"
| "fneg NaN = NaN"

fun fadd :: "pyfloat \<Rightarrow> pyfloat \<Rightarrow> pyfloat" where
  "fadd (Fin x) (Fin y) = to_float (x + y)"
| "fadd NaN b = NaN"
| "fadd a NaN = NaN"
| "fadd PInf MInf = NaN"
| "fadd MInf PInf = NaN"
| "fadd PInf b = PInf"
| "fadd a PInf = PInf"
| "fadd MInf b = MInf"
| "fadd a MInf = MInf"

definition fsub :: "pyfloat \<Rightarrow> pyfloat \<Rightarrow> pyfloat" where
  "fsub a b = fadd a (fneg b)"

fun sign_of :: "pyfloat \<Rightarrow> real" where
  "sign_of (Fin x) = sgn x"
| "sign_of PInf = 1"
| "sign_of MInf = - 1"
| "sign_of NaN = 0"


text \<open>
  \<open>a / b\<close>: Python raises \<open>ZeroDivisionError\<close> when the divisor is zero and divides as
  IEEE 754 does otherwise.
\<close>

fun fdiv :: "pyfloat \<Rightarrow> pyfloat \<Rightarrow> arith_error + pyfloat" where
  "fdiv a (Fin y) =
     (if y = 0 then Inl ZeroDivisionError
      else (case a of
              Fin x \<Rightarrow> Inr (to_float (x / y))
            | NaN \<Rightarrow> Inr NaN
            | _ \<Rightarrow> Inr (if 0 < sign_of a * y then PInf else MInf)))"
| "fdiv NaN b = Inr NaN"
| "fdiv a NaN = Inr NaN"
| "fdiv (Fin x) b = Inr (Fin 0)"
| "fdiv a b = Inr NaN"

text \<open>Sequencing of results that may be exceptions: the first exception is the result.\<close>

definition and_then :: "'e + 'a \<Rightarrow> ('a \<Rightarrow> 'e + 'b) \<Rightarrow> 'e + 'b" where
  "and_then r f = (case r of Inl e \<Rightarrow> Inl e | Inr v \<Rightarrow> f v)"

text \<open>
  \<open>10 ** w\<close> for a float \<open>w\<close> (\<open>float_pow\<close> of CPython). A zero exponent gives \<open>1.0\<close>,
  NaN gives NaN and an infinite exponent gives \<open>inf\<close> or \<open>0.0\<close>, all without a call of the C
  library. Otherwise the result is \<open>pow(10.0, w)\<close> of the C library, the parameter
  \<open>libm_pow10\<close> here; an infinite result is raised as \<open>OverflowError\<close>, and a result that
  underflows is returned (as with glibc, where \<open>errno\<close> is set on underflow only for a zero
  result, which CPython ignores).
\<close>

definition py_pow10 :: "(real \<Rightarrow> pyfloat) \<Rightarrow> pyfloat \<Rightarrow> arith_error + pyfloat" where
  "py_pow10 libm_pow10 w =
     (case w of
        Fin x \<Rightarrow>
          (if x = 0 then Inr (Fin 1)
           else (case libm_pow10 x of
                   PInf \<Rightarrow> Inl OverflowError
                 | MInf \<Rightarrow> Inl OverflowError
                 | r \<Rightarrow> Inr r))
      | NaN \<Rightarrow> Inr NaN
      | PInf \<Rightarrow> Inr PInf
      | MInf \<Rightarrow> Inr (Fin 0))"

text \<open>
  The expression \<open>1.0 / (1 + 10 ** x)\<close>, which lines 107, 108, 269, 288 and 296 share.
\<close>

definition expected_score :: "(real \<Rightarrow> pyfloat) \<Rightarrow> pyfloat \<Rightarrow> arith_error + pyfloat" where
  "expected_score libm_pow10 x =
     and_then (py_pow10 libm_pow10 x) (\<lambda>t. fdiv (Fin 1) (fadd (Fin 1) t))"

section \<open>Storage (bot.py, lines 73-113)\<close>

text \<open>
  The SQLite file holds two tables: \<open>elo(key PRIMARY KEY, rating)\<close> and
  \<open>results(sport, item_key, ts, UNIQUE(sport, item_key))\<close>. The state of the database is a
  record of both. A stored rating is a finite double; the table holds the real number it
  denotes. \<open>db()\<close> creates both tables when they
  are absent and changes no row, so it is the identity on this state.
\<close>

record db_state =
  elo_tbl :: "string \<rightharpoonup> real"
  results_tbl :: "(string \<times> string \<times> int) list"

definition db :: "db_state \<Rightarrow> db_state" where
  "db st = st"

definition elo_base :: real where
  "elo_base = 1500"

text \<open>\<open>elo_get(key, base=1500.0)\<close>: the stored rating, or \<open>base\<close> after inserting it.\<close>

definition elo_get :: "string \<Rightarrow> real \<Rightarrow> db_state \<Rightarrow> real \<times> db_state" where
  "elo_get key base st =
     (case elo_tbl (db st) key of
        Some r \<Rightarrow> (r, st)
      | None \<Rightarrow> (base, st\<lparr>elo_tbl := (elo_tbl st)(key \<mapsto> base)\<rparr>))"





text \<open>The rating a read of \<open>key\<close> would give in state \<open>st\<close> (used to state properties).\<close>

definition rating_of :: "db_state \<Rightarrow> string \<Rightarrow> real" where
  "rating_of st key = fst (elo_get key elo_base st)"

section \<open>Model scoring (bot.py, lines 248-297)\<close>

text \<open>
  The three predictors end with the same expression, \<open>1.0 / (1.0 + 10 ** (-diff/400))\<close>
  (lines 269, 288 and 296). \<open>win_prob\<close> is the expression over the real numbers;
  \<open>mlb_predict\<close> and \<open>nfl_predict\<close> below are written with it, and the statements about
  \<open>nfl_predict\<close> say which terms enter its argument. \<open>win_prob_double\<close> is the expression as
  Python evaluates it, in double precision, where \<open>-diff/400\<close> is \<open>(-diff) / 400\<close>; the
  statements about the values of the transform are made of it.
\<close>

definition win_prob :: "real \<Rightarrow> real" where
  "win_prob diff = 1 / (1 + 10 powr (- diff / 400))"

text \<open>The expression in double precision.\<close>

definition win_prob_double :: "(real \<Rightarrow> pyfloat) \<Rightarrow> pyfloat \<Rightarrow> arith_error + pyfloat" where
  "win_prob_double libm_pow10 diff =
     and_then (fdiv (fneg diff) (Fin 400)) (expected_score libm_pow10)"

text \<open>An f-string field \<open>{home}\<close>: the string itself, or \<open>None\<close> printed.\<close>

definition py_str :: "string option \<Rightarrow> string" where
  "py_str v = (case v of None \<Rightarrow> ''None'' | Some s \<Rightarrow> s)"

text \<open>
  In \<open>nfl_predict\<close> the tests \<open>wind_kmh and wind_kmh >= 32\<close> and
  \<open>precip_prob and precip_prob >= 60\<close> first take the truth value of the number: \<open>None\<close>
  and \<open>0\<close> are false. The test on \<open>temp_c\<close> is \<open>is not None\<close>.
\<close>

definition mlb_predict ::
  "string option \<Rightarrow> string option \<Rightarrow> int \<Rightarrow> real option \<Rightarrow> real option \<Rightarrow> db_state \<Rightarrow> real \<times> db_state" where
  "mlb_predict home away pf temp_c wind_kmh st =
     (let (Rh0, st1) = elo_get (''MLB:'' @ py_str home) elo_base st;
          (Ra, st2) = elo_get (''MLB:'' @ py_str away) elo_base st1;
          Rh1 = Rh0 + 30;
          Rh2 = Rh1 + (of_int pf - 100) * (2 / 10);
          Rh3 = (case temp_c of Some t \<Rightarrow> Rh2 + (t - 20) * (1 / 2) | None \<Rightarrow> Rh2);
          Rh4 = (case wind_kmh of Some w \<Rightarrow> (if w > 30 then Rh3 + 3 else Rh3) | None \<Rightarrow> Rh3);
          diff = Rh4 - Ra
      in (win_prob diff, st2))"


text \<open>\<open>ufc_predict\<close> (lines 291-297), in double precision.\<close>

definition ufc_predict ::
  "(real \<Rightarrow> pyfloat) \<Rightarrow> string option \<Rightarrow> string option \<Rightarrow> db_state \<Rightarrow> (arith_error + pyfloat) \<times> db_state" where
  "ufc_predict libm_pow10 fa fb st =
     (let (Ra, st1) = elo_get (''UFC:'' @ py_str fa) elo_base st;
          (Rb, st2) = elo_get (''UFC:'' @ py_str fb) elo_base st1;
          diff = fsub (Fin Ra) (Fin Rb)
      in (win_prob_double libm_pow10 diff, st2))"

section \<open>Time (bot.py, lines 116-120) and the events of a schedule\<close>

text \<open>
  An instant is a number of microseconds since 1970-01-01T00:00:00 UTC; a wall-clock time
  of the local zone is the same count on the local clock (Python datetimes have no leap
  seconds). A time zone is the function \<open>utcoffset\<close> that gives the offset in force at a
  wall-clock time; \<open>LOCAL_TZ\<close> and the reading of the clock, \<open>datetime.now(LOCAL_TZ)\<close>,
  are inputs.
\<close>

definition day :: int where
  "day = 86400000000"

definition local_date_bounds :: "int \<Rightarrow> int \<times> int" where
  "local_date_bounds now =
     (let start = now - now mod day;
          end = start + day
      in (start, end))"

definition astimezone_utc :: "(int \<Rightarrow> int) \<Rightarrow> int \<Rightarrow> int" where
  "astimezone_utc utcoffset wall = wall - utcoffset wall"

text \<open>An event of the schedule is a JSON object; \<open>.get\<close> gives \<open>None\<close> for a missing key.\<close>

record game =
  home_team :: "string option"
  away_team :: "string option"
  commence_time :: "string option"

datatype py_error = ValueError | AttributeError | KeyError | HTTPError

text \<open>\<open>iso.replace("Z", "+00:00")\<close> replaces every \<open>Z\<close>.\<close>

definition replace_Z :: "string \<Rightarrow> string" where
  "replace_Z ts = concat (map (\<lambda>c. if c = CHR ''Z'' then ''+00:00'' else [c]) ts)"

text \<open>
  \<open>datetime.fromisoformat(s).astimezone(timezone.utc)\<close> is a library call: in the functions
  below it is the parameter \<open>parse\<close>, which gives the instant the string denotes, or \<open>None\<close>
  where the library raises \<open>ValueError\<close>. For evaluation on concrete strings,
  \<open>fromisoformat_utc\<close> computes it on the strings of the form \<open>YYYY-MM-DDTHH:MM:SS+HH:MM\<close>
  (or \<open>-HH:MM\<close>), years 2 to 9998, and gives \<open>None\<close> on every other string.
\<close>

definition digit_val :: "char \<Rightarrow> nat option" where
  "digit_val c = (let n = (of_char c :: nat) in if 48 \<le> n \<and> n \<le> 57 then Some (n - 48) else None)"

fun number :: "string \<Rightarrow> nat \<Rightarrow> nat option" where
  "number [] acc = Some acc"
| "number (c # cs) acc = (case digit_val c of None \<Rightarrow> None | Some d \<Rightarrow> number cs (10 * acc + d))"

definition is_leap :: "nat \<Rightarrow> bool" where
  "is_leap y = (y mod 4 = 0 \<and> (y mod 100 \<noteq> 0 \<or> y mod 400 = 0))"

definition days_in_month :: "nat \<Rightarrow> nat \<Rightarrow> nat" where
  "days_in_month y m =
     (if m = 2 then (if is_leap y then 29 else 28)
      else if m = 4 \<or> m = 6 \<or> m = 9 \<or> m = 11 then 30 else 31)"

definition days_from_civil :: "nat \<Rightarrow> nat \<Rightarrow> nat \<Rightarrow> int" where
  "days_from_civil y m d =
     (let y1 = (if m \<le> 2 then int y - 1 else int y);
          era = y1 div 400;
          yoe = y1 - era * 400;
          mp = (if m > 2 then int m - 3 else int m + 9);
          doy = (153 * mp + 2) div 5 + int d - 1;
          doe = yoe * 365 + yoe div 4 - yoe div 100 + doy
      in era * 146097 + doe - 719468)"

definition slice :: "nat \<Rightarrow> nat \<Rightarrow> string \<Rightarrow> string" where
  "slice i n s = take n (drop i s)"

definition fromisoformat_utc :: "string \<Rightarrow> int option" where
  "fromisoformat_utc s =
     (if length s \<noteq> 25 then None
      else if slice 4 1 s \<noteq> ''-'' \<or> slice 7 1 s \<noteq> ''-'' \<or> slice 10 1 s \<noteq> ''T''
              \<or> slice 13 1 s \<noteq> '':'' \<or> slice 16 1 s \<noteq> '':'' \<or> slice 22 1 s \<noteq> '':''
              \<or> (slice 19 1 s \<noteq> ''+'' \<and> slice 19 1 s \<noteq> ''-'') then None
      else (case those [number (slice 0 4 s) 0, number (slice 5 2 s) 0, number (slice 8 2 s) 0,
                        number (slice 11 2 s) 0, number (slice 14 2 s) 0, number (slice 17 2 s) 0,
                        number (slice 20 2 s) 0, number (slice 23 2 s) 0] of
              Some [y, m, d, hh, mm, ss, oh, om] \<Rightarrow>
                (if 2 \<le> y \<and> y \<le> 9998 \<and> 1 \<le> m \<and> m \<le> 12 \<and> 1 \<le> d \<and> d \<le> days_in_month y m
                    \<and> hh < 24 \<and> mm < 60 \<and> ss < 60 \<and> oh < 24 \<and> om < 60
                 then (let wall = days_from_civil y m d * 86400 + int hh * 3600 + int mm * 60 + int ss;
                           off = int oh * 3600 + int om * 60
                       in Some ((if slice 19 1 s = ''+'' then wall - off else wall + off) * 1000000))
                 else None)
            | _ \<Rightarrow> None))"

section \<open>Fetch today (bot.py, lines 334-350)\<close>

text \<open>The loop of \<open>filter_today\<close>: the events kept, in input order, or the first exception.\<close>

fun filter_loop :: "(string \<Rightarrow> int option) \<Rightarrow> int \<Rightarrow> int \<Rightarrow> game list \<Rightarrow> py_error + game list" where
  "filter_loop parse start_u end_u [] = Inr []"
| "filter_loop parse start_u end_u (it # items) =
     (case commence_time it of
        None \<Rightarrow> filter_loop parse start_u end_u items
      | Some ts \<Rightarrow>
          (if ts = [] then filter_loop parse start_u end_u items
           else (case parse (replace_Z ts) of
                   None \<Rightarrow> Inl ValueError
                 | Some dt \<Rightarrow>
                     (case filter_loop parse start_u end_u items of
                        Inl e \<Rightarrow> Inl e
                      | Inr out \<Rightarrow> Inr (if start_u \<le> dt \<and> dt < end_u then it # out else out)))))"

text \<open>The sort key \<open>x.get("commence_time", "")\<close>: the string, compared as Python compares strings.\<close>

definition sort_key_of :: "game \<Rightarrow> string" where
  "sort_key_of x = (case commence_time x of None \<Rightarrow> [] | Some s \<Rightarrow> s)"

definition filter_today ::
  "(string \<Rightarrow> int option) \<Rightarrow> (int \<Rightarrow> int) \<Rightarrow> int \<Rightarrow> game list \<Rightarrow> py_error + game list" where
  "filter_today parse utcoffset now items =
     (let (start_l, end_l) = local_date_bounds now;
          start_u = astimezone_utc utcoffset start_l;
          end_u = astimezone_utc utcoffset end_l
      in (case filter_loop parse start_u end_u items of
            Inl e \<Rightarrow> Inl e
          | Inr out \<Rightarrow> Inr (sort_key sort_key_of out)))"

definition SPORT_KEYS :: "string \<rightharpoonup> string" where
  "SPORT_KEYS = map_of
     [(''mlb'', ''baseball_mlb''), (''nfl'', ''americanfootball_nfl''), (''ufc'', ''mma_mixed_martial_arts'')]"

text \<open>
  \<open>odds_upcoming\<close>: the empty list without an API key, else the answer of the schedule
  service, \<open>fetch\<close>, which can raise.
\<close>

definition odds_upcoming :: "bool \<Rightarrow> (string \<Rightarrow> py_error + game list) \<Rightarrow> string \<Rightarrow> py_error + game list" where
  "odds_upcoming api_key fetch sport_key = (if \<not> api_key then Inr [] else fetch sport_key)"

definition get_today_by_league ::
  "(string \<Rightarrow> int option) \<Rightarrow> (int \<Rightarrow> int) \<Rightarrow> int \<Rightarrow> bool \<Rightarrow> (string \<Rightarrow> py_error + game list)
     \<Rightarrow> string \<Rightarrow> py_error + game list" where
  "get_today_by_league parse utcoffset now api_key fetch lg =
     (case SPORT_KEYS lg of
        None \<Rightarrow> Inl KeyError
      | Some key \<Rightarrow>
          (case (if api_key then odds_upcoming api_key fetch key else Inr []) of
             Inl e \<Rightarrow> Inl e
           | Inr upcoming \<Rightarrow> filter_today parse utcoffset now upcoming))"

section \<open>Feature engineering for the NFL (bot.py, lines 37-71 and 209-236)\<close>








section \<open>Rendering and the command \<open>/today\<close> (bot.py, lines 299-331 and 365-396)\<close>

text \<open>
  The text of one line of a block (features, prediction, formatting of the percentages and
  of the local time) is the parameter \<open>line\<close>; the blocks below are the header, the joining
  of the lines and the placeholder of an empty list.
\<close>

fun join :: "string \<Rightarrow> string list \<Rightarrow> string" where
  "join sep [] = []"
| "join sep [x] = x"
| "join sep (x # y # ys) = x @ sep @ join sep (y # ys)"

definition newline :: string where
  "newline = [CHR 0x0A]"

definition block_mlb :: "(game \<Rightarrow> string) \<Rightarrow> game list \<Rightarrow> string" where
  "block_mlb line today_list =
     (let lines = map line today_list
      in if lines \<noteq> [] then ''*MLB Today*'' @ newline @ join newline lines
         else ''No MLB games today.'')"

definition block_nfl :: "(game \<Rightarrow> string) \<Rightarrow> game list \<Rightarrow> string" where
  "block_nfl line today_list =
     (let lines = map line today_list
      in if lines \<noteq> [] then ''*NFL Today*'' @ newline @ join newline lines
         else ''No NFL games today.'')"

definition block_ufc :: "(game \<Rightarrow> string) \<Rightarrow> game list \<Rightarrow> string" where
  "block_ufc line today_list =
     (let lines = map line today_list
      in if lines \<noteq> [] then ''*UFC Today*'' @ newline @ join newline lines
         else ''No UFC fights today.'')"

text \<open>
  \<open>cmd_today\<close>: the texts it replies with, in order. \<open>args\<close> is the list of arguments after
  lower-casing, \<open>when\<close> the date text \<open>strftime("%b %d")\<close>, \<open>today lg\<close> the result of
  \<open>get_today_by_league(lg)\<close>, and \<open>line lg\<close> the line of a game of league \<open>lg\<close>.
\<close>

definition cmd_today ::
  "bool \<Rightarrow> string \<Rightarrow> (string \<Rightarrow> py_error + game list) \<Rightarrow> (string \<Rightarrow> game \<Rightarrow> string) \<Rightarrow> string list
     \<Rightarrow> py_error + string list" where
  "cmd_today api_key when today line args =
     (if \<not> api_key then Inr [''Set ODDS_API_KEY env var to fetch schedules.'']
      else (case args of
          [] \<Rightarrow> Inr [''Usage: /today all|mlb|nfl|ufc'']
        | a0 # _ \<Rightarrow>
            (case (if a0 = ''all'' then
                     (case today ''mlb'' of Inl e \<Rightarrow> Inl e | Inr mlb \<Rightarrow>
                      (case today ''nfl'' of Inl e \<Rightarrow> Inl e | Inr nfl \<Rightarrow>
                       (case today ''ufc'' of Inl e \<Rightarrow> Inl e | Inr ufc \<Rightarrow>
                          Inr (Some ((if mlb \<noteq> [] then [block_mlb (line ''mlb'') mlb] else [])
                                   @ (if nfl \<noteq> [] then [block_nfl (line ''nfl'') nfl] else [])
                                   @ (if ufc \<noteq> [] then [block_ufc (line ''ufc'') ufc] else []))))))
                   else if SPORT_KEYS a0 \<noteq> None then
                     (case today a0 of Inl e \<Rightarrow> Inl e | Inr items \<Rightarrow>
                        Inr (Some (if a0 = ''mlb'' then [block_mlb (line a0) items]
                                   else if a0 = ''nfl'' then [block_nfl (line a0) items]
                                   else if a0 = ''ufc'' then [block_ufc (line a0) items]
                                   else [])))
                   else Inr None) of
               Inl e \<Rightarrow> Inl e
             | Inr None \<Rightarrow> Inr [''Use: all|mlb|nfl|ufc'']
             | Inr (Some blocks) \<Rightarrow>
                 Inr (if blocks = [] then [''No events today ('' @ when @ '').''] else blocks))))"

section \<open>States and abbreviations used in the statements\<close>

text \<open>A new database, and one whose table of results already holds a row.\<close>

definition fresh_db :: db_state where
  "fresh_db = \<lparr>elo_tbl = Map.empty, results_tbl = []\<rparr>"



text \<open>
  The instant the timestamp of an event denotes, when it has one that parses; the two ways an
  event can lack it; and the bounds of today in UTC, as \<open>filter_today\<close> computes them.
\<close>

definition instant_of :: "(string \<Rightarrow> int option) \<Rightarrow> game \<Rightarrow> int option" where
  "instant_of parse it =
     (case commence_time it of
        None \<Rightarrow> None
      | Some ts \<Rightarrow> (if ts = [] then None else parse (replace_Z ts)))"

definition no_timestamp :: "game \<Rightarrow> bool" where
  "no_timestamp it = (commence_time it = None \<or> commence_time it = Some [])"

definition unparseable :: "(string \<Rightarrow> int option) \<Rightarrow> game \<Rightarrow> bool" where
  "unparseable parse it = (\<not> no_timestamp it \<and> instant_of parse it = None)"

definition in_span :: "(string \<Rightarrow> int option) \<Rightarrow> int \<Rightarrow> int \<Rightarrow> game \<Rightarrow> bool" where
  "in_span parse start_u end_u it =
     (case instant_of parse it of None \<Rightarrow> False | Some dt \<Rightarrow> start_u \<le> dt \<and> dt < end_u)"

definition today_start_utc :: "(int \<Rightarrow> int) \<Rightarrow> int \<Rightarrow> int" where
  "today_start_utc utcoffset now = astimezone_utc utcoffset (fst (local_date_bounds now))"

definition today_end_utc :: "(int \<Rightarrow> int) \<Rightarrow> int \<Rightarrow> int" where
  "today_end_utc utcoffset now = astimezone_utc utcoffset (snd (local_date_bounds now))"

text \<open>
  Sample inputs: events, two time zones with a constant offset (UTC+2 and UTC), a reading of
  the local clock (2024-06-01 13:53:20), a weather answer, a schedule service with no events
  and a stand-in for the text of a line.
\<close>

definition game_at :: "string \<Rightarrow> string \<Rightarrow> string option \<Rightarrow> game" where
  "game_at h a ts = \<lparr>home_team = Some h, away_team = Some a, commence_time = ts\<rparr>"

definition sample_items :: "game list" where
  "sample_items =
     [game_at ''A'' ''B'' (Some ''2024-06-01T18:05:00Z''),
      game_at ''C'' ''D'' None,
      game_at ''E'' ''F'' (Some ''2024-05-31T22:00:00Z''),
      game_at ''G'' ''H'' (Some ''2024-06-01T22:00:00Z''),
      game_at ''I'' ''J'' (Some ''2024-06-01T21:59:59Z''),
      game_at ''K'' ''L'' (Some ''2024-06-01T18:05:00Z'')]"

definition sample_out :: "game list" where
  "sample_out =
     [game_at ''E'' ''F'' (Some ''2024-05-31T22:00:00Z''),
      game_at ''A'' ''B'' (Some ''2024-06-01T18:05:00Z''),
      game_at ''K'' ''L'' (Some ''2024-06-01T18:05:00Z''),
      game_at ''I'' ''J'' (Some ''2024-06-01T21:59:59Z'')]"

definition tz_plus2 :: "int \<Rightarrow> int" where
  "tz_plus2 wall = 7200000000"

definition tz_utc :: "int \<Rightarrow> int" where
  "tz_utc wall = 0"

definition sample_now :: int where
  "sample_now = 1717250000000000"



definition no_games :: "string \<Rightarrow> py_error + game list" where
  "no_games sport_key = Inr []"

definition plain_line :: "string \<Rightarrow> game \<Rightarrow> string" where
  "plain_line lg g = ''line''"

definition only_nfl :: "string \<Rightarrow> py_error + game list" where
  "only_nfl lg = (if lg = ''nfl'' then Inr [game_at ''Green Bay Packers'' ''Chicago Bears'' (Some ''2024-12-01T18:00:00Z'')] else Inr [])"

text \<open>
  Constants for the statements on double-precision results: \<open>tiny = 2^-1075\<close>, half the
  smallest positive double and the largest rounding error of a subnormal result; and
  \<open>moderate = 2^1000\<close>, a bound on the ratings and on \<open>k\<close> under which no \<open>+\<close>, \<open>-\<close> or
  \<open>*\<close> of the update overflows.
\<close>

definition tiny :: real where
  "tiny = 1 / 2 ^ 1075"

definition moderate :: real where
  "moderate = 2 ^ 1000"

text \<open>
  What the statements assume of the C library's \<open>pow\<close> at one exponent \<open>x\<close>: its result is
  a non-negative finite double within one unit in the last place of \<open>10^x\<close> (a relative error
  of \<open>2^-52\<close>, or \<open>2^-1074\<close> for a subnormal result), or it is plus infinity, and that only
  when \<open>10^x\<close> is at least \<open>2^1023\<close>. \<open>pow_nearest\<close> is the correctly rounded power, the
  instance used at concrete inputs.
\<close>

definition libm_accurate :: "(real \<Rightarrow> pyfloat) \<Rightarrow> real \<Rightarrow> bool" where
  "libm_accurate libm_pow10 x =
     (case libm_pow10 x of
        Fin t \<Rightarrow> 0 \<le> t \<and> t < float_limit \<and> \<bar>t - 10 powr x\<bar> \<le> 10 powr x / 2 ^ 52 + 2 * tiny
      | PInf \<Rightarrow> float_limit / 2 \<le> 10 powr x
      | _ \<Rightarrow> False)"

definition pow_nearest :: "real \<Rightarrow> pyfloat" where
  "pow_nearest x = to_float (10 powr x)"



definition exact_expected :: "real \<Rightarrow> real" where
  "exact_expected x = 1 / (1 + 10 powr x)"


text \<open>
  The state after the two reads of \<open>elo_update\<close>; an outcome with the table of results
  replaced; and a store with two ratings far apart.
\<close>

definition after_reads :: "string \<Rightarrow> string \<Rightarrow> db_state \<Rightarrow> db_state" where
  "after_reads a_key b_key st = snd (elo_get b_key elo_base (snd (elo_get a_key elo_base st)))"



text \<open>
  Both events have a timestamp that parses, and the instant of the first is not after the
  instant of the second.
\<close>

definition starts_no_later :: "(string \<Rightarrow> int option) \<Rightarrow> game \<Rightarrow> game \<Rightarrow> bool" where
  "starts_no_later parse x y =
     (case instant_of parse x of
        None \<Rightarrow> False
      | Some a \<Rightarrow> (case instant_of parse y of None \<Rightarrow> False | Some b \<Rightarrow> a \<le> b))"

section \<open>Rounding to a double\<close>

lemma p53: "(2::real) ^ 53 = 9007199254740992"
  by simp

lemma p52: "(2::real) ^ 52 = 4503599627370496"
  by simp

lemma tiny_pos: "0 < tiny"
  by (simp add: tiny_def)

lemma tiny_small: "tiny \<le> 1 / 1000000000000000000000000000000"
  by (simp add: tiny_def)

lemma float_limit_big: "1000000 \<le> float_limit"
  by (simp add: float_limit_def)

lemma binade_from_range: "- 1022 \<le> binade_from n a \<and> binade_from n a \<le> int n - 1022"
  by (induction n) auto

lemma binade_from_le: "binade_from n a = - 1022 \<or> 2 powi (binade_from n a) \<le> a"
  by (induction n) auto

lemma binade_from_small: "a < 2 powi (- 1021) \<Longrightarrow> binade_from n a = - 1022"
proof (induction n)
  case 0
  show ?case by simp
next
  case (Suc n)
  have "(2::real) powi (- 1021) \<le> 2 powi (int n - 1021)"
    by (rule power_int_increasing) simp_all
  then have "\<not> 2 powi (int n - 1021) \<le> a" using Suc.prems by linarith
  then show ?case using Suc by simp
qed

lemma binade_range: "- 1022 \<le> binade a" "binade a \<le> 1023"
  using binade_from_range [of 2045 a] by (simp_all add: binade_def)

lemma binade_le: "binade a = - 1022 \<or> 2 powi (binade a) \<le> a"
  using binade_from_le [of 2045 a] by (simp add: binade_def)

lemma binade_small: "a < 2 powi (- 1021) \<Longrightarrow> binade a = - 1022"
  by (simp add: binade_def binade_from_small)

lemma quantum_pos: "0 < quantum a"
  by (simp add: quantum_def zero_less_power_int)

lemma round_half_even_close: "\<bar>of_int (round_half_even m) - m\<bar> \<le> 1 / 2"
proof -
  have "of_int \<lfloor>m\<rfloor> \<le> m" "m < of_int \<lfloor>m\<rfloor> + 1" by linarith+
  then show ?thesis by (auto simp add: round_half_even_def Let_def)
qed

lemma round_half_even_of_int: "round_half_even (of_int n) = n"
  by (simp add: round_half_even_def)

lemma round_half_even_nonneg: "0 \<le> m \<Longrightarrow> 0 \<le> round_half_even m"
proof -
  assume "0 \<le> m"
  then have "0 \<le> \<lfloor>m\<rfloor>" by simp
  then show ?thesis by (auto simp add: round_half_even_def Let_def)
qed

lemma half_quantum: "0 \<le> a \<Longrightarrow> quantum a / 2 \<le> a / 2 ^ 53 + tiny"
proof -
  assume a: "0 \<le> a"
  consider "binade a = - 1022" | "2 powi (binade a) \<le> a" using binade_le by blast
  then show ?thesis
  proof cases
    case 1
    then have "quantum a = 2 powi (- 1074)" by (simp add: quantum_def)
    also have "\<dots> = 1 / 2 ^ 1074" by (simp only: power_int_minus_divide power_int_numeral)
    finally have "quantum a / 2 = tiny" by (simp add: tiny_def)
    then show ?thesis using a by simp
  next
    case 2
    have "quantum a = 2 powi (binade a) / 2 powi 52"
      unfolding quantum_def by (rule power_int_diff) simp
    then have "quantum a / 2 = 2 powi (binade a) / 2 ^ 53" by simp
    also have "\<dots> \<le> a / 2 ^ 53" using 2 by (simp add: divide_right_mono)
    finally show ?thesis using tiny_pos by linarith
  qed
qed

lemma rne_abs_error:
  "0 \<le> a \<Longrightarrow> \<bar>of_int (round_half_even (a / quantum a)) * quantum a - a\<bar> \<le> a / 2 ^ 53 + tiny"
proof -
  assume a: "0 \<le> a"
  define Q where "Q = quantum a"
  have Q: "0 < Q" by (simp add: Q_def quantum_pos)
  define r where "r = (of_int (round_half_even (a / Q)) :: real)"
  have "\<bar>r - a / Q\<bar> \<le> 1 / 2" unfolding r_def by (rule round_half_even_close)
  then have "\<bar>r - a / Q\<bar> * Q \<le> 1 / 2 * Q" using Q by (simp add: mult_right_mono)
  moreover have "\<bar>r - a / Q\<bar> * Q = \<bar>r * Q - a\<bar>"
  proof -
    have "\<bar>r - a / Q\<bar> * Q = \<bar>(r - a / Q) * Q\<bar>" using Q by (simp add: abs_mult)
    also have "(r - a / Q) * Q = r * Q - a" using Q by (simp add: field_simps)
    finally show ?thesis .
  qed
  ultimately have "\<bar>r * Q - a\<bar> \<le> Q / 2" by simp
  then show ?thesis using half_quantum [OF a] unfolding Q_def r_def by linarith
qed

lemma rne_error: "\<bar>rne x - x\<bar> \<le> \<bar>x\<bar> / 2 ^ 53 + tiny"
proof -
  consider "x = 0" | "0 < x" | "x < 0" by linarith
  then show ?thesis
  proof cases
    case 1
    then show ?thesis using tiny_pos by (simp add: rne_def)
  next
    case 2
    then show ?thesis using rne_abs_error [of x] by (simp add: rne_def)
  next
    case 3
    then have "rne x - x = - (of_int (round_half_even (\<bar>x\<bar> / quantum \<bar>x\<bar>)) * quantum \<bar>x\<bar> - \<bar>x\<bar>)"
      by (simp add: rne_def)
    then have "\<bar>rne x - x\<bar> = \<bar>of_int (round_half_even (\<bar>x\<bar> / quantum \<bar>x\<bar>)) * quantum \<bar>x\<bar> - \<bar>x\<bar>\<bar>"
      by (simp only: abs_minus_cancel)
    then show ?thesis using rne_abs_error [of "\<bar>x\<bar>"] by simp
  qed
qed

lemma rne_minus: "rne (- x) = - rne x"
  by (simp add: rne_def)

lemma rne_zero: "rne 0 = 0"
  by (simp add: rne_def)

lemma rne_nonneg: "0 \<le> x \<Longrightarrow> 0 \<le> rne x"
proof -
  assume x: "0 \<le> x"
  have "0 \<le> round_half_even (\<bar>x\<bar> / quantum \<bar>x\<bar>)"
    using quantum_pos [of "\<bar>x\<bar>"] by (intro round_half_even_nonneg) simp
  then show ?thesis using x quantum_pos [of "\<bar>x\<bar>"] by (simp add: rne_def sgn_if)
qed

lemma rne_exact_nonneg:
  assumes m: "0 \<le> m" "m < 2 ^ 53" and j: "- 1074 \<le> j" and a: "a = of_int m * 2 powi j"
  shows "of_int (round_half_even (a / quantum a)) * quantum a = a"
proof -
  define Q where "Q = quantum a"
  define e where "e = binade a"
  have Q: "0 < Q" by (simp add: Q_def quantum_pos)
  have Qe: "Q = 2 powi (e - 52)" by (simp add: Q_def quantum_def e_def)
  have lt: "a < 2 powi (j + 53)"
  proof -
    have "(of_int m :: real) < 2 ^ 53" using m(2) by (metis of_int_less_iff of_int_numeral of_int_power)
    then have "a < 2 ^ 53 * 2 powi j" unfolding a
      by (simp add: mult_strict_right_mono zero_less_power_int)
    also have "\<dots> = 2 powi (j + 53)" by (simp add: power_int_add)
    finally show ?thesis .
  qed
  have e: "e \<le> j + 52"
  proof -
    consider "e = - 1022" | "2 powi e \<le> a" using binade_le [of a] e_def by blast
    then show ?thesis
    proof cases
      case 1
      then show ?thesis using j by simp
    next
      case 2
      then have "(2::real) powi e < 2 powi (j + 53)" using lt by linarith
      then have "e < j + 53"
        by (metis linorder_not_le power_int_increasing one_le_numeral)
      then show ?thesis by simp
    qed
  qed
  define d where "d = nat (j + 52 - e)"
  have jd: "j = (e - 52) + int d" using e by (simp add: d_def)
  have "(2::real) powi j = 2 powi (e - 52) * 2 powi (int d)"
    by (subst jd, rule power_int_add) simp
  then have pj: "(2::real) powi j = Q * 2 ^ d"
    by (simp only: Qe power_int_of_nat)
  have aQ: "a = of_int (m * 2 ^ d) * Q" unfolding a pj by simp
  have "a / Q = of_int (m * 2 ^ d)" using Q by (subst aQ) simp
  then have "round_half_even (a / Q) = m * 2 ^ d"
    by (simp only: round_half_even_of_int)
  then have "of_int (round_half_even (a / Q)) * Q = a" using aQ by simp
  then show ?thesis by (simp only: Q_def)
qed

lemma sgn_of_int_real: "sgn (of_int m :: real) = of_int (sgn m)"
  by (simp add: sgn_if)

lemma rne_exact:
  assumes m: "\<bar>m\<bar> < 2 ^ 53" and j: "- 1074 \<le> j"
  shows "rne (of_int m * 2 powi j) = of_int m * 2 powi j"
proof -
  have p: "0 < (2::real) powi j" by (simp add: zero_less_power_int)
  have ab: "\<bar>of_int m * 2 powi j\<bar> = (of_int \<bar>m\<bar> * 2 powi j :: real)"
    using p by (simp add: abs_mult)
  have sg: "sgn (of_int m * 2 powi j :: real) = of_int (sgn m)"
    using p by (simp add: sgn_mult sgn_of_int_real)
  have "0 \<le> \<bar>m\<bar>" by simp
  note ex = rne_exact_nonneg [OF this m j refl]
  have "rne (of_int m * 2 powi j) = of_int (sgn m) * (of_int \<bar>m\<bar> * 2 powi j)"
    unfolding rne_def ab sg ex ..
  also have "\<dots> = of_int (sgn m * \<bar>m\<bar>) * 2 powi j" by simp
  also have "sgn m * \<bar>m\<bar> = m" by (simp add: sgn_if)
  finally show ?thesis .
qed

lemma rne_bound: "\<bar>rne x\<bar> \<le> 2 * \<bar>x\<bar> + tiny"
proof -
  have "\<bar>rne x - x\<bar> \<le> \<bar>x\<bar> / 2 ^ 53 + tiny" by (rule rne_error)
  moreover have "\<bar>x\<bar> / 2 ^ 53 \<le> \<bar>x\<bar>" by (simp add: field_simps)
  ultimately show ?thesis by linarith
qed

lemma to_float_in_range: "\<bar>rne x\<bar> < float_limit \<Longrightarrow> to_float x = Fin (rne x)"
proof -
  assume "\<bar>rne x\<bar> < float_limit"
  then have "\<not> float_limit \<le> rne x" "\<not> rne x \<le> - float_limit" by linarith+
  then show ?thesis by (simp add: to_float_def Let_def)
qed

lemma to_float_fin: "\<bar>x\<bar> \<le> float_limit / 4 \<Longrightarrow> to_float x = Fin (rne x)"
proof -
  assume x: "\<bar>x\<bar> \<le> float_limit / 4"
  have "\<bar>rne x\<bar> \<le> 2 * \<bar>x\<bar> + tiny" by (rule rne_bound)
  then have "\<bar>rne x\<bar> < float_limit" using x tiny_small float_limit_big by linarith
  then show ?thesis by (rule to_float_in_range)
qed

lemma to_float_exact:
  "\<bar>m\<bar> < 2 ^ 53 \<Longrightarrow> - 1074 \<le> j \<Longrightarrow> \<bar>of_int m * 2 powi j\<bar> < float_limit
     \<Longrightarrow> to_float (of_int m * 2 powi j) = Fin (of_int m * 2 powi j)"
  using to_float_in_range [of "of_int m * 2 powi j"] by (simp add: rne_exact)

section \<open>Accuracy of the operations\<close>

lemma moderate_pos: "1 \<le> moderate"
  by (simp add: moderate_def)

lemma moderate_limit: "64 * moderate \<le> float_limit"
  by (simp add: moderate_def float_limit_def)

lemma ten_300: "(10::real) powr 300 \<le> moderate"
  by (simp add: moderate_def)

lemma ten_309: "2 * float_limit \<le> (10::real) powr 309"
  by (simp add: float_limit_def)

lemma pow_nearest_accurate: "libm_accurate pow_nearest x"
proof -
  define T :: real where "T = 10 powr x"
  have T: "0 < T" by (simp add: T_def)
  have e: "\<bar>rne T - T\<bar> \<le> T / 2 ^ 53 + tiny" using rne_error [of T] T by simp
  have n: "0 \<le> rne T" using T by (intro rne_nonneg) simp
  have nm: "\<not> rne T \<le> - float_limit" using n float_limit_big by linarith
  show ?thesis
  proof (cases "float_limit \<le> rne T")
    case True
    then have "pow_nearest x = PInf" by (simp add: pow_nearest_def to_float_def T_def Let_def)
    moreover have "float_limit / 2 \<le> T" using True e tiny_small float_limit_big
      by (simp only: p53; linarith)
    ultimately show ?thesis by (simp add: libm_accurate_def T_def)
  next
    case False
    then have "pow_nearest x = Fin (rne T)" using nm by (simp add: pow_nearest_def to_float_def T_def Let_def)
    moreover have "\<bar>rne T - T\<bar> \<le> T / 2 ^ 52 + 2 * tiny" using e T tiny_pos
      by (simp only: p52 p53; linarith)
    ultimately show ?thesis using n False by (simp add: libm_accurate_def T_def)
  qed
qed

lemma pow_returns:
  assumes acc: "libm_accurate pw q" and T: "10 powr q \<le> moderate"
  shows "\<exists>t. py_pow10 pw (Fin q) = Inr (Fin t) \<and> 0 \<le> t
            \<and> \<bar>t - 10 powr q\<bar> \<le> 10 powr q / 2 ^ 52 + 2 * tiny"
proof (cases "q = 0")
  case True
  then show ?thesis using tiny_pos by (simp add: py_pow10_def)
next
  case False
  have nl: "\<not> float_limit / 2 \<le> 10 powr q" using T moderate_limit moderate_pos by linarith
  show ?thesis
  proof (cases "pw q")
    case (Fin t)
    then show ?thesis using acc False by (simp add: py_pow10_def libm_accurate_def)
  next
    case PInf
    then show ?thesis using acc nl by (simp add: libm_accurate_def)
  next
    case MInf
    then show ?thesis using acc by (simp add: libm_accurate_def)
  next
    case NaN
    then show ?thesis using acc by (simp add: libm_accurate_def)
  qed
qed

lemma pow_overflows:
  assumes acc: "libm_accurate pw q" and T: "2 * float_limit \<le> 10 powr q"
  shows "py_pow10 pw (Fin q) = Inl OverflowError"
proof -
  have q: "q \<noteq> 0"
  proof
    assume "q = 0"
    then show False using T float_limit_big by simp
  qed
  show ?thesis
  proof (cases "pw q")
    case (Fin t)
    then have "t < float_limit" "\<bar>t - 10 powr q\<bar> \<le> 10 powr q / 2 ^ 52 + 2 * tiny"
      using acc by (simp_all add: libm_accurate_def)
    then have False using T tiny_small float_limit_big by (simp only: p52; linarith)
    then show ?thesis ..
  next
    case PInf
    then show ?thesis using q by (simp add: py_pow10_def)
  next
    case MInf
    then show ?thesis using acc by (simp add: libm_accurate_def)
  next
    case NaN
    then show ?thesis using acc by (simp add: libm_accurate_def)
  qed
qed

lemma expected_close:
  assumes acc: "libm_accurate pw q" and TM: "10 powr q \<le> moderate"
  shows "\<exists>E. expected_score pw (Fin q) = Inr (Fin E) \<and> \<bar>E - 1 / (1 + 10 powr q)\<bar> \<le> 6 / 2 ^ 53"
proof -
  define T :: real where "T = 10 powr q"
  have T0: "0 < T" by (simp add: T_def)
  have TM': "T \<le> moderate" using TM by (simp add: T_def)
  obtain t where pt: "py_pow10 pw (Fin q) = Inr (Fin t)" and t0: "0 \<le> t"
    and te: "\<bar>t - T\<bar> \<le> T / 2 ^ 52 + 2 * tiny"
    using pow_returns [OF acc TM] unfolding T_def by blast
  define a where "a = 1 + t"
  have a1: "1 \<le> a" using t0 by (simp add: a_def)
  have aM: "\<bar>a\<bar> \<le> float_limit / 4"
    using te TM' t0 moderate_pos moderate_limit tiny_small unfolding a_def
    by (simp only: p52; linarith)
  define s where "s = rne a"
  have fs: "fadd (Fin 1) (Fin t) = Fin s"
    using to_float_fin [OF aM] by (simp add: a_def s_def)
  have se: "\<bar>s - a\<bar> \<le> a / 2 ^ 53 + tiny"
    using rne_error [of a] a1 by (simp add: s_def)
  have s45: "4 / 5 * a \<le> s" using se a1 tiny_small by (simp only: p53; linarith)
  have sa: "\<bar>s - a\<bar> \<le> a * (5 / 4) / 2 ^ 53" using se a1 tiny_small by (simp only: p53; linarith)
  have s0: "0 < s" using s45 a1 by linarith
  define y where "y = 1 / s"
  have y0: "0 < y" using s0 by (simp add: y_def)
  have y54: "y \<le> 5 / 4"
  proof -
    have "4 / 5 \<le> s" using s45 a1 by linarith
    then have "1 / s \<le> 1 / (4 / 5)" by (intro divide_left_mono) simp_all
    then show ?thesis by (simp add: y_def)
  qed
  have yM: "\<bar>y\<bar> \<le> float_limit / 4" using y0 y54 float_limit_big by linarith
  have fd: "fdiv (Fin 1) (Fin s) = Inr (Fin (rne y))"
    using s0 to_float_fin [OF yM] by (simp add: y_def)
  define E where "E = rne y"
  have Ee: "\<bar>E - y\<bar> \<le> y / 2 ^ 53 + tiny" using rne_error [of y] y0 by (simp add: E_def)
  have d1: "\<bar>y - 1 / a\<bar> \<le> 2 / 2 ^ 53"
  proof -
    have sa_pos: "0 < s * a" using s0 a1 by simp
    have "s * 1 \<le> s * a" using s0 a1 by (intro mult_left_mono) simp_all
    then have sa_ge: "4 / 5 * a \<le> s * a" using s45 by linarith
    have "y - 1 / a = (a - s) / (s * a)" using s0 a1 by (simp add: y_def field_simps)
    then have "\<bar>y - 1 / a\<bar> = \<bar>s - a\<bar> / (s * a)" using sa_pos by (simp add: abs_minus_commute)
    also have "\<dots> \<le> 2 / 2 ^ 53"
    proof -
      have "\<bar>s - a\<bar> \<le> 2 / 2 ^ 53 * (s * a)" using sa sa_ge by (simp only: p53; linarith)
      then show ?thesis using sa_pos by (simp add: pos_divide_le_eq)
    qed
    finally show ?thesis .
  qed
  have d2: "\<bar>1 / a - 1 / (1 + T)\<bar> \<le> 2 / 2 ^ 53 + 2 / 1000000000000000000000000000000"
  proof -
    define W where "W = a * (1 + T)"
    have W0: "0 < W" using a1 T0 by (simp add: W_def)
    have "1 * (1 + T) \<le> a * (1 + T)" using a1 T0 by (intro mult_right_mono) simp_all
    then have W1: "1 + T \<le> W" by (simp add: W_def)
    have "1 / a - 1 / (1 + T) = (T - t) / W" using a1 T0 by (simp add: a_def W_def field_simps)
    then have "\<bar>1 / a - 1 / (1 + T)\<bar> = \<bar>t - T\<bar> / W" using W0 by (simp add: abs_minus_commute)
    also have "\<dots> \<le> 2 / 2 ^ 53 + 2 / 1000000000000000000000000000000"
    proof -
      have "\<bar>t - T\<bar> \<le> 2 / 2 ^ 53 * W + 2 / 1000000000000000000000000000000 * W"
        using te W1 T0 tiny_small by (simp only: p52 p53; linarith)
      then have "\<bar>t - T\<bar> \<le> (2 / 2 ^ 53 + 2 / 1000000000000000000000000000000) * W"
        by (simp only: distrib_right)
      then show ?thesis using W0 by (simp only: pos_divide_le_eq)
    qed
    finally show ?thesis .
  qed
  have "\<bar>E - 1 / (1 + T)\<bar> \<le> 6 / 2 ^ 53"
    using Ee d1 d2 y0 y54 tiny_small by (simp only: p53; linarith)
  moreover have "expected_score pw (Fin q) = Inr (Fin E)"
    by (simp only: expected_score_def and_then_def pt sum.case fs fd E_def)
  ultimately show ?thesis unfolding T_def by blast
qed


lemma exact_expected_pair: "exact_expected x + exact_expected (- x) = 1"
proof -
  define a :: real where "a = 10 powr x"
  have pos: "0 < a" by (simp add: a_def)
  have inv: "10 powr (- x) = 1 / a" by (simp add: a_def powr_minus_divide)
  show ?thesis
    unfolding exact_expected_def inv a_def [symmetric] using pos by (simp add: field_simps)
qed

lemma rne_abs_le: "\<bar>x\<bar> \<le> c \<Longrightarrow> \<bar>rne x\<bar> \<le> c + c / 2 ^ 53 + tiny"
  using rne_error [of x] by (simp only: p53; linarith)


lemma rne_lower: "0 \<le> x \<Longrightarrow> x - x / 2 ^ 53 - tiny \<le> rne x"
  using rne_error [of x] by (simp only: p53; linarith)

lemma rne_of_int: "\<bar>n\<bar> < 2 ^ 53 \<Longrightarrow> rne (of_int n) = of_int n"
  using rne_exact [of n 0] by simp


lemma rne_half: "rne (1 / 2) = 1 / 2"
proof -
  have "rne (of_int 1 * 2 powi (- 1)) = of_int 1 * 2 powi (- 1)" by (rule rne_exact) simp_all
  moreover have "of_int 1 * 2 powi (- 1) = (1 / 2 :: real)" by (simp add: power_int_minus_divide)
  ultimately show ?thesis by (simp only:)
qed






lemma powr_small: "\<bar>q\<bar> \<le> 300 \<Longrightarrow> 10 powr q \<le> moderate"
proof -
  assume "\<bar>q\<bar> \<le> 300"
  then have "q \<le> 300" by linarith
  then have "(10::real) powr q \<le> 10 powr 300" by (intro powr_mono) simp_all
  then show ?thesis using ten_300 by linarith
qed

lemma powr_large: "309 \<le> q \<Longrightarrow> 2 * float_limit \<le> 10 powr q"
proof -
  assume "309 \<le> q"
  then have "(10::real) powr 309 \<le> 10 powr q" by (intro powr_mono) simp_all
  then show ?thesis using ten_309 by linarith
qed



section \<open>The rating store\<close>

lemma elo_get_known: "elo_tbl st key = Some r \<Longrightarrow> elo_get key base st = (r, st)"
  by (simp add: elo_get_def db_def)

lemma elo_get_unknown:
  "elo_tbl st key = None \<Longrightarrow> elo_get key base st = (base, st\<lparr>elo_tbl := (elo_tbl st)(key \<mapsto> base)\<rparr>)"
  by (simp add: elo_get_def db_def)

lemma rating_of_alt: "rating_of st key = (case elo_tbl st key of None \<Rightarrow> 1500 | Some r \<Rightarrow> r)"
  by (simp add: rating_of_def elo_get_def db_def elo_base_def split: option.split)

lemma rating_of_elo_get: "fst (elo_get key elo_base st) = rating_of st key"
  by (simp add: rating_of_def)

lemma rating_of_after_get: "rating_of (snd (elo_get key elo_base st)) k2 = rating_of st k2"
  by (simp add: rating_of_alt elo_get_def db_def elo_base_def split: option.split)




text \<open>
  C8. A first read of a key that has no row returns 1500 and inserts the row with 1500,
  leaving every other row and the results as they were; a second read of the same key
  returns 1500 again and leaves the store as the first read left it. \<open>elo_get\<close> has a
  value for every key: an unknown key is not an error.
\<close>

theorem elo_get_default_initialization:
  "elo_tbl st key = None \<Longrightarrow>
     (let (r1, st1) = elo_get key elo_base st;
          (r2, st2) = elo_get key elo_base st1
      in r1 = 1500 \<and> elo_tbl st1 = (elo_tbl st)(key \<mapsto> 1500) \<and> results_tbl st1 = results_tbl st
         \<and> r2 = 1500 \<and> st2 = st1)"
  by (simp add: elo_get_def db_def elo_base_def)

theorem elo_get_default_initialization_witness:
  "elo_tbl fresh_db ''MLB:Unknown Team'' = None \<and>
   (let (r1, st1) = elo_get ''MLB:Unknown Team'' elo_base fresh_db;
        (r2, st2) = elo_get ''MLB:Unknown Team'' elo_base st1
    in r1 = 1500 \<and> elo_tbl st1 = (elo_tbl fresh_db)(''MLB:Unknown Team'' \<mapsto> 1500)
       \<and> results_tbl st1 = results_tbl fresh_db \<and> r2 = 1500 \<and> st2 = st1)"
proof -
  have h: "elo_tbl fresh_db ''MLB:Unknown Team'' = None" by (simp add: fresh_db_def)
  show ?thesis using h elo_get_default_initialization [OF h] by simp
qed

section \<open>The rating update\<close>

lemma float_limit_53: "2 ^ 53 \<le> float_limit"
  by (simp add: float_limit_def)

lemma to_float_zero: "to_float 0 = Fin 0"
  using to_float_in_range [of 0] float_limit_big by (simp add: rne_zero)

lemma to_float_of_int: "\<bar>n\<bar> < 2 ^ 53 \<Longrightarrow> to_float (of_int n) = Fin (of_int n)"
proof -
  assume n: "\<bar>n\<bar> < 2 ^ 53"
  then have "\<bar>of_int n :: real\<bar> < 2 ^ 53"
    by (metis of_int_abs of_int_less_iff of_int_numeral of_int_power)
  then have "\<bar>rne (of_int n)\<bar> < float_limit" using float_limit_53 by (simp add: rne_of_int [OF n])
  then show ?thesis using to_float_in_range [of "of_int n"] by (simp add: rne_of_int [OF n])
qed

lemma to_float_numeral: "(numeral w :: int) < 2 ^ 53 \<Longrightarrow> to_float (numeral w) = Fin (numeral w)"
  using to_float_of_int [of "numeral w"] by simp

lemma to_float_neg_numeral:
  "(numeral w :: int) < 2 ^ 53 \<Longrightarrow> to_float (- numeral w) = Fin (- numeral w)"
  using to_float_of_int [of "- numeral w"] by simp

lemma to_float_one: "to_float 1 = Fin 1"
  using to_float_of_int [of 1] by simp

lemma to_float_half: "to_float (1 / 2) = Fin (1 / 2)"
  using to_float_in_range [of "1 / 2"] float_limit_big by (simp add: rne_half)

lemma to_float_neg_half: "to_float (- (1 / 2)) = Fin (- (1 / 2))"
  using to_float_in_range [of "- (1 / 2)"] float_limit_big by (simp add: rne_half rne_minus)

lemmas to_float_exact_values =
  to_float_zero to_float_one to_float_half to_float_neg_half to_float_numeral to_float_neg_numeral

lemma expected_score_zero: "expected_score pw (Fin 0) = Inr (Fin (1 / 2))"
  by (simp add: expected_score_def and_then_def py_pow10_def to_float_exact_values)




lemma rating_of_after_reads: "rating_of (after_reads a b st) c = rating_of st c"
  by (simp add: after_reads_def rating_of_after_get)










lemma moderate_big: "1000000 \<le> moderate"
  by (simp add: moderate_def)






lemma fresh_ratings: "rating_of fresh_db key = 1500"
  by (simp add: rating_of_alt fresh_db_def)








section \<open>The probability of a win\<close>

lemma win_prob_double_zero: "win_prob_double pw (Fin 0) = Inr (Fin (1 / 2))"
  by (simp add: win_prob_double_def and_then_def expected_score_zero to_float_exact_values)

lemma rne_underflow: "0 \<le> x \<Longrightarrow> x < tiny \<Longrightarrow> rne x = 0"
proof -
  assume x: "0 \<le> x" "x < tiny"
  have t: "tiny = 2 powi (- 1075)" by (simp only: tiny_def power_int_minus_divide power_int_numeral)
  have "(2::real) powi (- 1075) \<le> 2 powi (- 1021)" by (rule power_int_increasing) simp_all
  then have "\<bar>x\<bar> < 2 powi (- 1021)" using x t by linarith
  then have "binade \<bar>x\<bar> = - 1022" by (rule binade_small)
  then have Q: "quantum \<bar>x\<bar> = 2 powi (- 1074)" by (simp add: quantum_def)
  have "(2::real) powi (- 1074) = 2 powi (- 1075 + 1)" by simp
  also have "\<dots> = 2 powi (- 1075) * 2" by (rule power_int_add_1) simp
  finally have Q2: "quantum \<bar>x\<bar> = 2 * tiny" using Q t by simp
  define m where "m = \<bar>x\<bar> / quantum \<bar>x\<bar>"
  have "\<bar>x\<bar> / (2 * tiny) < tiny / (2 * tiny)"
    using x tiny_pos by (intro divide_strict_right_mono) simp_all
  moreover have "tiny / (2 * tiny) = 1 / 2" using tiny_pos by simp
  ultimately have m1: "m < 1 / 2" by (simp only: m_def Q2)
  have m0: "0 \<le> m" using quantum_pos [of "\<bar>x\<bar>"] by (simp add: m_def)
  have "of_int 0 \<le> m" "m < of_int 0 + 1" using m0 m1 by simp_all
  then have "\<lfloor>m\<rfloor> = 0" by (rule floor_unique)
  then have "round_half_even m = 0" using m1 by (simp add: round_half_even_def)
  then show ?thesis by (simp add: rne_def m_def)
qed

lemma pow_nearest_overflow: "309 \<le> q \<Longrightarrow> pow_nearest q = PInf"
proof -
  assume "309 \<le> q"
  then have T: "2 * float_limit \<le> 10 powr q" by (rule powr_large)
  define x :: real where "x = 10 powr q"
  have "x - x / 2 ^ 53 - tiny \<le> rne x" using T float_limit_big unfolding x_def by (intro rne_lower) linarith
  then have "float_limit \<le> rne x" using T tiny_small float_limit_big unfolding x_def [symmetric]
    by (simp only: p53; linarith)
  then show ?thesis by (simp add: pow_nearest_def to_float_def x_def)
qed

lemma pow_nearest_underflow: "pow_nearest (- 500) = Fin 0"
proof -
  have "(10::real) powr (- 500) = 1 / 10 ^ 500" by (simp add: powr_minus_divide)
  moreover have "(1::real) / 10 ^ 500 < tiny" by (simp add: tiny_def)
  ultimately have r: "rne (10 powr (- 500)) = 0" by (intro rne_underflow) simp_all
  have "to_float (10 powr (- 500)) = Fin (rne (10 powr (- 500)))"
    using float_limit_big by (intro to_float_in_range) (simp add: r)
  then show ?thesis by (simp add: pow_nearest_def r)
qed

lemma win_exponent:
  assumes "\<bar>d\<bar> < float_limit"
  shows "fdiv (fneg (Fin d)) (Fin 400) = Inr (Fin (rne (- d / 400)))"
proof -
  define z where "z = - d / 400"
  have "\<bar>z\<bar> = \<bar>d\<bar> / 400" by (simp add: z_def)
  then have "\<bar>z\<bar> \<le> float_limit / 4" using assms by linarith
  then have "to_float z = Fin (rne z)" by (rule to_float_fin)
  then show ?thesis by (simp add: z_def)
qed

lemma win_exponent_small:
  assumes "\<bar>d\<bar> \<le> 100000"
  shows "\<bar>rne (- d / 400)\<bar> \<le> 300"
proof -
  define z where "z = - d / 400"
  have "\<bar>z\<bar> = \<bar>d\<bar> / 400" by (simp add: z_def)
  then have "\<bar>z\<bar> \<le> 250" using assms by linarith
  then have "\<bar>rne z\<bar> \<le> 250 + 250 / 2 ^ 53 + tiny" by (rule rne_abs_le)
  then have "\<bar>rne z\<bar> \<le> 300" using tiny_small by (simp only: p53; linarith)
  then show ?thesis by (simp only: z_def)
qed

lemma win_exponent_large:
  assumes "d \<le> - 124000"
  shows "309 \<le> rne (- d / 400)"
proof -
  define z where "z = - d / 400"
  have z: "310 \<le> z" using assms by (simp add: z_def)
  then have "z - z / 2 ^ 53 - tiny \<le> rne z" by (intro rne_lower) simp
  then have "309 \<le> rne z" using z tiny_small by (simp only: p53; linarith)
  then show ?thesis by (simp only: z_def)
qed

lemma win_prob_close:
  assumes d: "\<bar>d\<bar> \<le> 100000"
    and acc1: "libm_accurate pw (rne (- d / 400))"
    and acc2: "libm_accurate pw (- rne (- d / 400))"
  shows "\<exists>p1 p2. win_prob_double pw (Fin d) = Inr (Fin p1)
           \<and> win_prob_double pw (Fin (- d)) = Inr (Fin p2)
           \<and> \<bar>p1 + p2 - 1\<bar> \<le> 12 / 2 ^ 53"
proof -
  define q where "q = rne (- d / 400)"
  have fin: "\<bar>d\<bar> < float_limit" "\<bar>- d\<bar> < float_limit" using d float_limit_big by simp_all
  have x1: "fdiv (fneg (Fin d)) (Fin 400) = Inr (Fin q)"
    unfolding q_def using fin(1) by (rule win_exponent)
  have "rne (- (- d) / 400) = - q"
  proof -
    have "- (- d) / 400 = - (- d / 400)" by simp
    then show ?thesis by (simp only: q_def rne_minus)
  qed
  then have x2: "fdiv (fneg (Fin (- d))) (Fin 400) = Inr (Fin (- q))"
    using win_exponent [OF fin(2)] by simp
  have q300: "\<bar>q\<bar> \<le> 300" unfolding q_def using d by (rule win_exponent_small)
  have T1: "10 powr q \<le> moderate" using q300 by (rule powr_small)
  have T2: "10 powr (- q) \<le> moderate" using q300 by (intro powr_small) simp
  obtain p1 where p1: "expected_score pw (Fin q) = Inr (Fin p1)"
    and e1: "\<bar>p1 - exact_expected q\<bar> \<le> 6 / 2 ^ 53"
    using expected_close [OF acc1 [folded q_def] T1] unfolding exact_expected_def by blast
  obtain p2 where p2: "expected_score pw (Fin (- q)) = Inr (Fin p2)"
    and e2: "\<bar>p2 - exact_expected (- q)\<bar> \<le> 6 / 2 ^ 53"
    using expected_close [OF acc2 [folded q_def] T2] unfolding exact_expected_def by blast
  define u where "u = exact_expected q"
  define v where "v = exact_expected (- q)"
  have uv: "u + v = 1" unfolding u_def v_def by (rule exact_expected_pair)
  have "\<bar>p1 - u\<bar> \<le> 6 / 2 ^ 53" "\<bar>p2 - v\<bar> \<le> 6 / 2 ^ 53" using e1 e2 by (simp_all only: u_def v_def)
  then have "\<bar>p1 + p2 - 1\<bar> \<le> 12 / 2 ^ 53" using uv by (simp only: p53; linarith)
  moreover have "win_prob_double pw (Fin d) = Inr (Fin p1)"
    unfolding win_prob_double_def x1 and_then_def sum.case p1 ..
  moreover have "win_prob_double pw (Fin (- d)) = Inr (Fin p2)"
    unfolding win_prob_double_def x2 and_then_def sum.case p2 ..
  ultimately show ?thesis by blast
qed

lemma win_prob_overflow:
  assumes fin: "\<bar>d\<bar> < float_limit" and d: "d \<le> - 124000"
    and acc1: "libm_accurate pw (rne (- d / 400))"
  shows "win_prob_double pw (Fin d) = Inl OverflowError"
proof -
  define q where "q = rne (- d / 400)"
  have x1: "fdiv (fneg (Fin d)) (Fin 400) = Inr (Fin q)"
    unfolding q_def using fin by (rule win_exponent)
  have "309 \<le> q" unfolding q_def using d by (rule win_exponent_large)
  then have "2 * float_limit \<le> 10 powr q" by (rule powr_large)
  then have "py_pow10 pw (Fin q) = Inl OverflowError"
    using acc1 [folded q_def] by (intro pow_overflows)
  then have e1: "expected_score pw (Fin q) = Inl OverflowError"
    by (simp add: expected_score_def and_then_def)
  show ?thesis unfolding win_prob_double_def x1 and_then_def sum.case e1 ..
qed

lemma ufc_predict_prob:
  assumes "\<bar>rating_of st (''UFC:'' @ py_str fa)\<bar> \<le> moderate"
    and "\<bar>rating_of st (''UFC:'' @ py_str fb)\<bar> \<le> moderate"
  shows "fst (ufc_predict pw fa fb st)
     = win_prob_double pw
         (Fin (rne (rating_of st (''UFC:'' @ py_str fa) - rating_of st (''UFC:'' @ py_str fb))))"
proof -
  define Ra where "Ra = rating_of st (''UFC:'' @ py_str fa)"
  define Rb where "Rb = rating_of st (''UFC:'' @ py_str fb)"
  have "\<bar>Ra - Rb\<bar> \<le> float_limit / 4" using assms moderate_limit unfolding Ra_def Rb_def by linarith
  then have "to_float (Ra - Rb) = Fin (rne (Ra - Rb))" by (rule to_float_fin)
  then have "fsub (Fin Ra) (Fin Rb) = Fin (rne (Ra - Rb))" by (simp add: fsub_def)
  then show ?thesis
    by (simp add: ufc_predict_def Let_def split_def rating_of_elo_get rating_of_after_get Ra_def Rb_def)
qed

text \<open>
  C3 (as amended). The transform as the code evaluates it,
  \<open>p(d) = 1.0 / (1.0 + 10 ** (-d/400))\<close> in double precision, gives \<open>p(0) = 0.5\<close> exactly.
  For a finite \<open>d\<close> and a C library \<open>pow\<close> accurate at the two exponents: when \<open>d\<close> is at
  most 100000 in magnitude, \<open>p(d)\<close> and \<open>p(-d)\<close> both return and \<open>p(d) + p(-d)\<close> differs
  from 1 by at most \<open>12 * 2^-53\<close> (symmetry up to rounding); when \<open>d \<le> -124000\<close>, \<open>p(d)\<close>
  raises \<open>OverflowError\<close>. The two predictions of \<open>ufc_predict\<close> for a pair of fighters
  whose ratings are at most \<open>2^1000\<close> in magnitude, taken in either order, are \<open>p(d)\<close> and
  \<open>p(-d)\<close> for \<open>d\<close> the rounded difference of the two ratings.
\<close>

theorem win_prob_symmetry:
  assumes "\<bar>d\<bar> < float_limit"
    and "libm_accurate pw (rne (- d / 400))" and "libm_accurate pw (- rne (- d / 400))"
  shows "win_prob_double pw (Fin 0) = Inr (Fin (1 / 2)) \<and>
         (\<bar>d\<bar> \<le> 100000 \<longrightarrow>
            (\<exists>p1 p2. win_prob_double pw (Fin d) = Inr (Fin p1)
               \<and> win_prob_double pw (Fin (- d)) = Inr (Fin p2)
               \<and> \<bar>p1 + p2 - 1\<bar> \<le> 12 / 2 ^ 53)) \<and>
         (d \<le> - 124000 \<longrightarrow> win_prob_double pw (Fin d) = Inl OverflowError) \<and>
         (\<bar>rating_of st (''UFC:'' @ py_str fa)\<bar> \<le> moderate
            \<and> \<bar>rating_of st (''UFC:'' @ py_str fb)\<bar> \<le> moderate \<longrightarrow>
            fst (ufc_predict pw fa fb st)
              = win_prob_double pw
                  (Fin (rne (rating_of st (''UFC:'' @ py_str fa) - rating_of st (''UFC:'' @ py_str fb))))
            \<and> fst (ufc_predict pw fb fa st)
              = win_prob_double pw
                  (Fin (- rne (rating_of st (''UFC:'' @ py_str fa) - rating_of st (''UFC:'' @ py_str fb)))))"
proof (intro conjI impI)
  show "win_prob_double pw (Fin 0) = Inr (Fin (1 / 2))" by (rule win_prob_double_zero)
next
  assume "\<bar>d\<bar> \<le> 100000"
  then show "\<exists>p1 p2. win_prob_double pw (Fin d) = Inr (Fin p1)
               \<and> win_prob_double pw (Fin (- d)) = Inr (Fin p2)
               \<and> \<bar>p1 + p2 - 1\<bar> \<le> 12 / 2 ^ 53"
    using assms(2,3) by (rule win_prob_close)
next
  assume "d \<le> - 124000"
  then show "win_prob_double pw (Fin d) = Inl OverflowError"
    using assms(1,2) by (intro win_prob_overflow)
next
  assume a: "\<bar>rating_of st (''UFC:'' @ py_str fa)\<bar> \<le> moderate
            \<and> \<bar>rating_of st (''UFC:'' @ py_str fb)\<bar> \<le> moderate"
  then show "fst (ufc_predict pw fa fb st)
              = win_prob_double pw
                  (Fin (rne (rating_of st (''UFC:'' @ py_str fa) - rating_of st (''UFC:'' @ py_str fb))))"
    by (intro ufc_predict_prob) simp_all
next
  assume a: "\<bar>rating_of st (''UFC:'' @ py_str fa)\<bar> \<le> moderate
            \<and> \<bar>rating_of st (''UFC:'' @ py_str fb)\<bar> \<le> moderate"
  define Ra where "Ra = rating_of st (''UFC:'' @ py_str fa)"
  define Rb where "Rb = rating_of st (''UFC:'' @ py_str fb)"
  have "Rb - Ra = - (Ra - Rb)" by simp
  then have sw: "rne (Rb - Ra) = - rne (Ra - Rb)" by (simp only: rne_minus)
  have "fst (ufc_predict pw fb fa st) = win_prob_double pw (Fin (rne (Rb - Ra)))"
    unfolding Ra_def Rb_def using a by (intro ufc_predict_prob) simp_all
  then have "fst (ufc_predict pw fb fa st) = win_prob_double pw (Fin (- rne (Ra - Rb)))"
    by (simp only: sw)
  then show "fst (ufc_predict pw fb fa st)
              = win_prob_double pw
                  (Fin (- rne (rating_of st (''UFC:'' @ py_str fa) - rating_of st (''UFC:'' @ py_str fb))))"
    by (simp only: Ra_def Rb_def)
qed

theorem win_prob_symmetry_witness:
  "(\<exists>p1 p2. win_prob_double pow_nearest (Fin 400) = Inr (Fin p1)
       \<and> win_prob_double pow_nearest (Fin (- 400)) = Inr (Fin p2)
       \<and> \<bar>p1 + p2 - 1\<bar> \<le> 12 / 2 ^ 53) \<and>
   win_prob_double pow_nearest (Fin (- 124000)) = Inl OverflowError \<and>
   fst (ufc_predict pow_nearest (Some ''A'') (Some ''B'') fresh_db) = win_prob_double pow_nearest (Fin (rne (1500 - 1500)))"
proof -
  have f: "\<bar>400::real\<bar> < float_limit" "\<bar>- 124000::real\<bar> < float_limit"
    using float_limit_big by simp_all
  note t1 = win_prob_symmetry [OF f(1) pow_nearest_accurate pow_nearest_accurate,
      where fa = "Some ''A''" and fb = "Some ''B''" and st = fresh_db]
  note t2 = win_prob_symmetry [OF f(2) pow_nearest_accurate pow_nearest_accurate,
      where fa = "Some ''A''" and fb = "Some ''B''" and st = fresh_db]
  have g1: "\<bar>400::real\<bar> \<le> 100000" by simp
  have g2: "(- 124000::real) \<le> - 124000" by simp
  have g3: "\<bar>rating_of fresh_db (''UFC:'' @ py_str (Some ''A''))\<bar> \<le> moderate
            \<and> \<bar>rating_of fresh_db (''UFC:'' @ py_str (Some ''B''))\<bar> \<le> moderate"
    using moderate_big by (simp add: fresh_ratings)
  note a = mp [OF t1 [THEN conjunct2, THEN conjunct1] g1]
  note b = mp [OF t2 [THEN conjunct2, THEN conjunct2, THEN conjunct1] g2]
  note c = mp [OF t1 [THEN conjunct2, THEN conjunct2, THEN conjunct2] g3, THEN conjunct1]
  have c': "fst (ufc_predict pow_nearest (Some ''A'') (Some ''B'') fresh_db)
              = win_prob_double pow_nearest (Fin (rne (1500 - 1500)))"
    using c by (simp only: fresh_ratings)
  from a b c' show ?thesis by (intro conjI)
qed

text \<open>
  The claim as stated fails at \<open>d = -200000\<close>: \<open>p(-200000)\<close> raises \<open>OverflowError\<close>
  (\<open>10 ** 500.0\<close> is beyond the doubles), while \<open>p(200000)\<close> is \<open>1.0\<close>.
\<close>

theorem win_prob_overflow_counterexample:
  "win_prob_double pow_nearest (Fin (- 200000)) = Inl OverflowError \<and>
   win_prob_double pow_nearest (Fin 200000) = Inr (Fin 1)"
proof -
  have o: "pow_nearest 500 = PInf" by (rule pow_nearest_overflow) simp
  have a: "win_prob_double pow_nearest (Fin (- 200000)) = Inl OverflowError"
    by (simp add: win_prob_double_def and_then_def expected_score_def py_pow10_def
        to_float_exact_values o)
  have b: "win_prob_double pow_nearest (Fin 200000) = Inr (Fin 1)"
    by (simp add: win_prob_double_def and_then_def expected_score_def py_pow10_def
        to_float_exact_values pow_nearest_underflow)
  from a b show ?thesis by (intro conjI)
qed

section \<open>The NFL prediction\<close>


section \<open>The filter of today's events\<close>

lemma filter_loop_char:
  "filter_loop parse s e items =
     (if list_ex (unparseable parse) items then Inl ValueError
      else Inr (filter (in_span parse s e) items))"
proof (induction items)
  case Nil
  show ?case by simp
next
  case (Cons it items)
  show ?case
  proof (cases "commence_time it")
    case None
    then have "\<not> unparseable parse it" "\<not> in_span parse s e it"
      by (simp_all add: unparseable_def no_timestamp_def instant_of_def in_span_def)
    then show ?thesis using None Cons by simp
  next
    case (Some ts)
    show ?thesis
    proof (cases "ts = []")
      case True
      then have "\<not> unparseable parse it" "\<not> in_span parse s e it"
        using Some by (simp_all add: unparseable_def no_timestamp_def instant_of_def in_span_def)
      then show ?thesis using True Some Cons by simp
    next
      case False
      show ?thesis
      proof (cases "parse (replace_Z ts)")
        case None
        then have "unparseable parse it"
          using Some False by (simp add: unparseable_def no_timestamp_def instant_of_def)
        then show ?thesis using None Some False by simp
      next
        case (Some dt)
        then have u: "\<not> unparseable parse it"
          and i: "in_span parse s e it \<longleftrightarrow> s \<le> dt \<and> dt < e"
          using \<open>commence_time it = Some ts\<close> False
          by (simp_all add: unparseable_def no_timestamp_def instant_of_def in_span_def)
        show ?thesis using u i Some \<open>commence_time it = Some ts\<close> False Cons by simp
      qed
    qed
  qed
qed

lemma filter_today_char:
  "filter_today parse utcoffset now items =
     (if list_ex (unparseable parse) items then Inl ValueError
      else Inr (sort_key sort_key_of
             (filter (in_span parse (today_start_utc utcoffset now) (today_end_utc utcoffset now)) items)))"
  by (simp add: filter_today_def filter_loop_char split_def Let_def today_start_utc_def today_end_utc_def)

lemma local_date_bounds_midnight:
  "fst (local_date_bounds now) mod day = 0 \<and> fst (local_date_bounds now) \<le> now
     \<and> now < snd (local_date_bounds now)
     \<and> snd (local_date_bounds now) = fst (local_date_bounds now) + day"
proof -
  have d: "0 < day" by (simp add: day_def)
  have m: "0 \<le> now mod day" "now mod day < day" using d by simp_all
  have "(now - now mod day) mod day = 0" by (simp add: minus_mod_eq_mult_div)
  then show ?thesis using m by (simp add: local_date_bounds_def Let_def)
qed

lemma sample_today2: "filter_today fromisoformat_utc tz_plus2 sample_now sample_items = Inr sample_out"
  by code_simp

lemma sample_instants:
  "instant_of fromisoformat_utc (game_at ''E'' ''F'' (Some ''2024-05-31T22:00:00Z'')) = Some 1717192800000000"
  "instant_of fromisoformat_utc (game_at ''G'' ''H'' (Some ''2024-06-01T22:00:00Z'')) = Some 1717279200000000"
  by code_simp+

lemma sample_bounds:
  "today_start_utc tz_plus2 sample_now = 1717192800000000"
  "today_end_utc tz_plus2 sample_now = 1717279200000000"
  by (simp_all add: today_start_utc_def today_end_utc_def local_date_bounds_def astimezone_utc_def
      tz_plus2_def sample_now_def day_def Let_def)

text \<open>
  C4. \<open>local_date_bounds\<close> gives local midnight today (a multiple of a day on the local
  clock, at or before now) and local midnight tomorrow, one day later. When \<open>filter_today\<close>
  returns, it returns exactly the events whose timestamp denotes an instant in the half-open
  interval between the two, converted to UTC: an event at the start boundary is returned
  (the interval being non-empty), an event at the end boundary is not.
\<close>

theorem filter_today_half_open:
  "filter_today parse utcoffset now items = Inr out \<Longrightarrow>
     fst (local_date_bounds now) mod day = 0 \<and> fst (local_date_bounds now) \<le> now
     \<and> now < snd (local_date_bounds now)
     \<and> snd (local_date_bounds now) = fst (local_date_bounds now) + day
     \<and> mset out = mset (filter (\<lambda>it. \<exists>dt. instant_of parse it = Some dt
                                   \<and> today_start_utc utcoffset now \<le> dt
                                   \<and> dt < today_end_utc utcoffset now) items)
     \<and> (\<forall>it \<in> set items. instant_of parse it = Some (today_start_utc utcoffset now)
            \<and> today_start_utc utcoffset now < today_end_utc utcoffset now \<longrightarrow> it \<in> set out)
     \<and> (\<forall>it. instant_of parse it = Some (today_end_utc utcoffset now) \<longrightarrow> it \<notin> set out)"
proof -
  assume a: "filter_today parse utcoffset now items = Inr out"
  let ?s = "today_start_utc utcoffset now" and ?e = "today_end_utc utcoffset now"
  have out: "out = sort_key sort_key_of (filter (in_span parse ?s ?e) items)"
    using a by (simp add: filter_today_char split: if_splits)
  have span: "in_span parse ?s ?e = (\<lambda>it. \<exists>dt. instant_of parse it = Some dt \<and> ?s \<le> dt \<and> dt < ?e)"
    by (rule ext) (simp add: in_span_def split: option.split)
  have so: "set out = {it \<in> set items. in_span parse ?s ?e it}" by (simp add: out)
  have m: "mset out = mset (filter (in_span parse ?s ?e) items)" by (simp add: out)
  have b1: "\<forall>it \<in> set items. instant_of parse it = Some ?s \<and> ?s < ?e \<longrightarrow> it \<in> set out"
    by (simp add: so in_span_def)
  have b2: "\<forall>it. instant_of parse it = Some ?e \<longrightarrow> it \<notin> set out"
    by (simp add: so in_span_def)
  show ?thesis using local_date_bounds_midnight [of now] m b1 b2 unfolding span by blast
qed

theorem filter_today_half_open_witness:
  "filter_today fromisoformat_utc tz_plus2 sample_now sample_items = Inr sample_out
   \<and> today_start_utc tz_plus2 sample_now = 1717192800000000
   \<and> today_end_utc tz_plus2 sample_now = 1717279200000000
   \<and> instant_of fromisoformat_utc (game_at ''E'' ''F'' (Some ''2024-05-31T22:00:00Z'')) = Some 1717192800000000
   \<and> game_at ''E'' ''F'' (Some ''2024-05-31T22:00:00Z'') \<in> set sample_out
   \<and> instant_of fromisoformat_utc (game_at ''G'' ''H'' (Some ''2024-06-01T22:00:00Z'')) = Some 1717279200000000
   \<and> game_at ''G'' ''H'' (Some ''2024-06-01T22:00:00Z'') \<notin> set sample_out"
proof -
  let ?E = "game_at ''E'' ''F'' (Some ''2024-05-31T22:00:00Z'')"
  let ?G = "game_at ''G'' ''H'' (Some ''2024-06-01T22:00:00Z'')"
  have mem: "?E \<in> set sample_items"
    by (simp add: sample_items_def)
  note th = filter_today_half_open [OF sample_today2]
  have b1: "\<forall>it \<in> set sample_items. instant_of fromisoformat_utc it = Some (today_start_utc tz_plus2 sample_now)
          \<and> today_start_utc tz_plus2 sample_now < today_end_utc tz_plus2 sample_now \<longrightarrow> it \<in> set sample_out"
    using th by (elim conjE)
  have b2: "\<forall>it. instant_of fromisoformat_utc it = Some (today_end_utc tz_plus2 sample_now) \<longrightarrow> it \<notin> set sample_out"
    using th by (elim conjE)
  have e1: "instant_of fromisoformat_utc ?E = Some (today_start_utc tz_plus2 sample_now)"
    by (simp only: sample_bounds sample_instants)
  have e2: "instant_of fromisoformat_utc ?G = Some (today_end_utc tz_plus2 sample_now)"
    by (simp only: sample_bounds sample_instants)
  have lt: "today_start_utc tz_plus2 sample_now < today_end_utc tz_plus2 sample_now"
    by (simp add: sample_bounds)
  have i1: "?E \<in> set sample_out"
    using bspec [OF b1 mem] e1 lt by (rule_tac mp) (assumption, rule conjI)
  have i2: "?G \<notin> set sample_out"
    using spec [OF b2, of ?G] e2 by (rule mp)
  from sample_today2 sample_bounds sample_instants i1 i2 show ?thesis
    by (intro conjI)
qed

text \<open>
  C5 (as amended). The events returned are the surviving events sorted ascending by their
  \<open>commence_time\<close> strings, compared as strings (not by the instants the strings denote);
  events with equal strings keep their input order. The result is in the order of the start
  instants whenever, among the events returned, the order of the strings implies the order
  of the instants.
\<close>

theorem filter_today_sorted_by_string:
  "filter_today parse utcoffset now items = Inr out \<Longrightarrow>
     sorted (map sort_key_of out)
     \<and> (\<forall>x \<in> set out. commence_time x = Some (sort_key_of x))
     \<and> mset out = mset (filter (in_span parse (today_start_utc utcoffset now)
                                   (today_end_utc utcoffset now)) items)
     \<and> (\<forall>k. filter (\<lambda>x. sort_key_of x = k) out
             = filter (\<lambda>x. sort_key_of x = k)
                 (filter (in_span parse (today_start_utc utcoffset now)
                            (today_end_utc utcoffset now)) items))
     \<and> ((\<forall>x \<in> set out. \<forall>y \<in> set out. sort_key_of x \<le> sort_key_of y \<longrightarrow> starts_no_later parse x y)
          \<longrightarrow> sorted_wrt (starts_no_later parse) out)"
proof -
  assume a: "filter_today parse utcoffset now items = Inr out"
  let ?kept = "filter (in_span parse (today_start_utc utcoffset now) (today_end_utc utcoffset now)) items"
  have out: "out = sort_key sort_key_of ?kept"
    using a by (simp add: filter_today_char split: if_splits)
  have key: "\<forall>x \<in> set out. commence_time x = Some (sort_key_of x)"
    by (auto simp add: out in_span_def instant_of_def sort_key_of_def split: option.splits)
  have st: "\<forall>k. filter (\<lambda>x. sort_key_of x = k) out = filter (\<lambda>x. sort_key_of x = k) ?kept"
    unfolding out by (simp add: sort_key_stable)
  have srt: "sorted (map sort_key_of out)" by (simp add: out)
  have inst: "(\<forall>x \<in> set out. \<forall>y \<in> set out. sort_key_of x \<le> sort_key_of y \<longrightarrow> starts_no_later parse x y)
          \<longrightarrow> sorted_wrt (starts_no_later parse) out"
  proof
    assume h: "\<forall>x \<in> set out. \<forall>y \<in> set out. sort_key_of x \<le> sort_key_of y \<longrightarrow> starts_no_later parse x y"
    have "sorted_wrt (\<lambda>x y. sort_key_of x \<le> sort_key_of y) out"
      using srt by (simp only: sorted_map)
    then show "sorted_wrt (starts_no_later parse) out"
      by (rule sorted_wrt_mono_rel [rotated]) (use h in blast)
  qed
  have m: "mset out = mset ?kept" by (simp add: out)
  from srt key m st inst show ?thesis by (intro conjI)
qed

lemma sample_out_instants:
  "instant_of fromisoformat_utc (game_at ''A'' ''B'' (Some ''2024-06-01T18:05:00Z'')) = Some 1717265100000000"
  "instant_of fromisoformat_utc (game_at ''K'' ''L'' (Some ''2024-06-01T18:05:00Z'')) = Some 1717265100000000"
  "instant_of fromisoformat_utc (game_at ''I'' ''J'' (Some ''2024-06-01T21:59:59Z'')) = Some 1717279199000000"
  by code_simp+

lemma sample_out_monotone:
  "\<forall>x \<in> set sample_out. \<forall>y \<in> set sample_out.
     sort_key_of x \<le> sort_key_of y \<longrightarrow> starts_no_later fromisoformat_utc x y"
  by (simp add: sample_out_def starts_no_later_def sample_instants sample_out_instants)
     (simp add: sort_key_of_def game_at_def)

theorem filter_today_sorted_by_string_witness:
  "filter_today fromisoformat_utc tz_plus2 sample_now sample_items = Inr sample_out
   \<and> sorted (map sort_key_of sample_out)
   \<and> filter (\<lambda>x. sort_key_of x = ''2024-06-01T18:05:00Z'') sample_out
       = filter (\<lambda>x. sort_key_of x = ''2024-06-01T18:05:00Z'')
           (filter (in_span fromisoformat_utc (today_start_utc tz_plus2 sample_now)
                      (today_end_utc tz_plus2 sample_now)) sample_items)
   \<and> sorted_wrt (starts_no_later fromisoformat_utc) sample_out"
proof -
  note th = filter_today_sorted_by_string [OF sample_today2]
  have s: "sorted (map sort_key_of sample_out)" using th by (elim conjE)
  have st: "\<forall>k. filter (\<lambda>x. sort_key_of x = k) sample_out
             = filter (\<lambda>x. sort_key_of x = k)
                 (filter (in_span fromisoformat_utc (today_start_utc tz_plus2 sample_now)
                            (today_end_utc tz_plus2 sample_now)) sample_items)"
    using th by (elim conjE)
  note i = th [THEN conjunct2, THEN conjunct2, THEN conjunct2, THEN conjunct2]
  have w: "sorted_wrt (starts_no_later fromisoformat_utc) sample_out"
    using i sample_out_monotone by (rule mp)
  from sample_today2 s spec [OF st, of "''2024-06-01T18:05:00Z''"] w show ?thesis
    by (intro conjI)
qed

text \<open>
  The claim as stated fails: 10:00 at UTC+2 is an hour before 09:00 at UTC, and the
  filter returns the 09:00 event first.
\<close>

theorem filter_today_sorted_by_instant_counterexample:
  "filter_today fromisoformat_utc tz_utc sample_now
     [game_at ''A'' ''B'' (Some ''2024-06-01T10:00:00+02:00''),
      game_at ''C'' ''D'' (Some ''2024-06-01T09:00:00+00:00'')]
   = Inr [game_at ''C'' ''D'' (Some ''2024-06-01T09:00:00+00:00''),
          game_at ''A'' ''B'' (Some ''2024-06-01T10:00:00+02:00'')]
   \<and> instant_of fromisoformat_utc (game_at ''C'' ''D'' (Some ''2024-06-01T09:00:00+00:00''))
       = Some 1717232400000000
   \<and> instant_of fromisoformat_utc (game_at ''A'' ''B'' (Some ''2024-06-01T10:00:00+02:00''))
       = Some 1717228800000000
   \<and> (1717228800000000 :: int) < 1717232400000000"
  by code_simp

lemma bad_item: "unparseable fromisoformat_utc (game_at ''A'' ''B'' (Some ''not-a-date''))"
  by code_simp

text \<open>
  C6. An event with a missing or empty timestamp is never returned. An event with a
  non-empty timestamp that does not parse is not skipped: \<open>filter_today\<close> raises
  \<open>ValueError\<close> for the whole list, and it returns normally only when no event of the list
  has such a timestamp.
\<close>

theorem filter_today_timestamps:
  "(filter_today parse utcoffset now items = Inr out \<longrightarrow>
      (\<forall>it \<in> set out. \<not> no_timestamp it) \<and> (\<forall>it \<in> set items. \<not> unparseable parse it)) \<and>
   ((\<exists>it \<in> set items. unparseable parse it) \<longrightarrow>
      filter_today parse utcoffset now items = Inl ValueError)"
proof -
  have "\<And>it. in_span parse (today_start_utc utcoffset now) (today_end_utc utcoffset now) it
          \<Longrightarrow> \<not> no_timestamp it"
    by (auto simp add: in_span_def instant_of_def no_timestamp_def split: option.splits)
  then show ?thesis
    by (auto simp add: filter_today_char list_ex_iff split: if_splits)
qed

theorem filter_today_timestamps_witness:
  "game_at ''A'' ''B'' (Some ''not-a-date'') \<in> set [game_at ''A'' ''B'' (Some ''not-a-date'')]
   \<and> unparseable fromisoformat_utc (game_at ''A'' ''B'' (Some ''not-a-date''))
   \<and> filter_today fromisoformat_utc tz_utc sample_now [game_at ''A'' ''B'' (Some ''not-a-date'')]
       = Inl ValueError"
proof -
  let ?g = "game_at ''A'' ''B'' (Some ''not-a-date'')"
  have m: "?g \<in> set [?g]" by simp
  have ex: "\<exists>it \<in> set [?g]. unparseable fromisoformat_utc it"
    using bad_item by simp
  note th = filter_today_timestamps [of fromisoformat_utc tz_utc sample_now "[?g]" "[]"]
  have r: "filter_today fromisoformat_utc tz_utc sample_now [?g] = Inl ValueError"
    using th ex by (elim conjE) (rule mp)
  from m bad_item r show ?thesis by (intro conjI)
qed

section \<open>Rest days of the NFL features\<close>









section \<open>Blocks of an empty slate\<close>

lemma filter_today_empty: "filter_today parse utcoffset now [] = Inr []"
  by (simp add: filter_today_def split_def Let_def)

lemma get_today_empty:
  "SPORT_KEYS lg = Some key \<Longrightarrow> (api_key \<longrightarrow> fetch key = Inr []) \<Longrightarrow>
     get_today_by_league parse utcoffset now api_key fetch lg = Inr []"
  by (simp add: get_today_by_league_def odds_upcoming_def filter_today_empty)

lemma block_empty:
  "block_mlb line [] = ''No MLB games today.''"
  "block_nfl line [] = ''No NFL games today.''"
  "block_ufc line [] = ''No UFC fights today.''"
  by (simp_all add: block_mlb_def block_nfl_def block_ufc_def)

lemma cmd_today_single:
  "today ''mlb'' = Inr items \<Longrightarrow>
     cmd_today True date_text today lines (''mlb'' # rest) = Inr [block_mlb (lines ''mlb'') items]"
  "today ''nfl'' = Inr items \<Longrightarrow>
     cmd_today True date_text today lines (''nfl'' # rest) = Inr [block_nfl (lines ''nfl'') items]"
  "today ''ufc'' = Inr items \<Longrightarrow>
     cmd_today True date_text today lines (''ufc'' # rest) = Inr [block_ufc (lines ''ufc'') items]"
  by (simp_all add: cmd_today_def SPORT_KEYS_def)

lemma cmd_today_all:
  "today ''mlb'' = Inr mlb \<Longrightarrow> today ''nfl'' = Inr nfl \<Longrightarrow> today ''ufc'' = Inr ufc \<Longrightarrow>
     cmd_today True date_text today lines (''all'' # rest) =
       Inr (if mlb = [] \<and> nfl = [] \<and> ufc = [] then [''No events today ('' @ date_text @ '').'']
            else (if mlb \<noteq> [] then [block_mlb (lines ''mlb'') mlb] else [])
               @ (if nfl \<noteq> [] then [block_nfl (lines ''nfl'') nfl] else [])
               @ (if ufc \<noteq> [] then [block_ufc (lines ''ufc'') ufc] else []))"
  by (simp add: cmd_today_def)

lemma mlb_key: "SPORT_KEYS ''mlb'' = Some ''baseball_mlb''"
  by (simp add: SPORT_KEYS_def)

text \<open>
  C9 (as amended). Each of \<open>block_mlb\<close>, \<open>block_nfl\<close> and \<open>block_ufc\<close> renders the
  placeholder of its sport for an empty list, and an empty schedule gives an empty list.
  \<open>/today mlb\<close>, \<open>/today nfl\<close> and \<open>/today ufc\<close> reply with that placeholder. \<open>/today all\<close>
  leaves out the block of every sport whose list is empty and replies with the single text
  \<open>No events today (date).\<close> when all three are empty. Without an API key the command
  replies with the instruction to set one and renders no block.
\<close>

theorem empty_slate_rendering:
  "block_mlb line [] = ''No MLB games today.'' \<and>
   block_nfl line [] = ''No NFL games today.'' \<and>
   block_ufc line [] = ''No UFC fights today.'' \<and>
   (SPORT_KEYS lg = Some key \<and> (api_key \<longrightarrow> fetch key = Inr []) \<longrightarrow>
      get_today_by_league parse utcoffset now api_key fetch lg = Inr []) \<and>
   (today ''mlb'' = Inr [] \<longrightarrow>
      cmd_today True date_text today lines (''mlb'' # rest) = Inr [''No MLB games today.'']) \<and>
   (today ''nfl'' = Inr [] \<longrightarrow>
      cmd_today True date_text today lines (''nfl'' # rest) = Inr [''No NFL games today.'']) \<and>
   (today ''ufc'' = Inr [] \<longrightarrow>
      cmd_today True date_text today lines (''ufc'' # rest) = Inr [''No UFC fights today.'']) \<and>
   (today ''mlb'' = Inr mlb \<and> today ''nfl'' = Inr nfl \<and> today ''ufc'' = Inr ufc \<longrightarrow>
      cmd_today True date_text today lines (''all'' # rest) =
        Inr (if mlb = [] \<and> nfl = [] \<and> ufc = [] then [''No events today ('' @ date_text @ '').'']
             else (if mlb \<noteq> [] then [block_mlb (lines ''mlb'') mlb] else [])
                @ (if nfl \<noteq> [] then [block_nfl (lines ''nfl'') nfl] else [])
                @ (if ufc \<noteq> [] then [block_ufc (lines ''ufc'') ufc] else []))) \<and>
   cmd_today False date_text today lines args = Inr [''Set ODDS_API_KEY env var to fetch schedules.'']"
proof -
  have g: "SPORT_KEYS lg = Some key \<and> (api_key \<longrightarrow> fetch key = Inr []) \<longrightarrow>
      get_today_by_league parse utcoffset now api_key fetch lg = Inr []"
    using get_today_empty [of lg key api_key fetch parse utcoffset now] by blast
  have a: "today ''mlb'' = Inr mlb \<and> today ''nfl'' = Inr nfl \<and> today ''ufc'' = Inr ufc \<longrightarrow>
      cmd_today True date_text today lines (''all'' # rest) =
        Inr (if mlb = [] \<and> nfl = [] \<and> ufc = [] then [''No events today ('' @ date_text @ '').'']
             else (if mlb \<noteq> [] then [block_mlb (lines ''mlb'') mlb] else [])
                @ (if nfl \<noteq> [] then [block_nfl (lines ''nfl'') nfl] else [])
                @ (if ufc \<noteq> [] then [block_ufc (lines ''ufc'') ufc] else []))"
    using cmd_today_all [of today mlb nfl ufc date_text lines rest] by blast
  have k: "cmd_today False date_text today lines args = Inr [''Set ODDS_API_KEY env var to fetch schedules.'']"
    by (simp add: cmd_today_def)
  have s1: "today ''mlb'' = Inr [] \<longrightarrow>
      cmd_today True date_text today lines (''mlb'' # rest) = Inr [''No MLB games today.'']"
    by (simp add: cmd_today_single block_empty)
  have s2: "today ''nfl'' = Inr [] \<longrightarrow>
      cmd_today True date_text today lines (''nfl'' # rest) = Inr [''No NFL games today.'']"
    by (simp add: cmd_today_single block_empty)
  have s3: "today ''ufc'' = Inr [] \<longrightarrow>
      cmd_today True date_text today lines (''ufc'' # rest) = Inr [''No UFC fights today.'']"
    by (simp add: cmd_today_single block_empty)
  from block_empty [of line] g s1 s2 s3 a k show ?thesis by (intro conjI)
qed

theorem empty_slate_rendering_witness:
  "(SPORT_KEYS ''mlb'' = Some ''baseball_mlb'' \<and> no_games ''baseball_mlb'' = Inr [])
   \<and> get_today_by_league fromisoformat_utc tz_utc sample_now True no_games ''mlb'' = Inr []
   \<and> cmd_today True ''Jun 01'' (get_today_by_league fromisoformat_utc tz_utc sample_now True no_games)
        plain_line [''mlb''] = Inr [''No MLB games today.'']"
proof -
  let ?today = "get_today_by_league fromisoformat_utc tz_utc sample_now True no_games"
  have h: "SPORT_KEYS ''mlb'' = Some ''baseball_mlb'' \<and> (True \<longrightarrow> no_games ''baseball_mlb'' = Inr [])"
    by (simp add: mlb_key no_games_def)
  note th = empty_slate_rendering [where lg = "''mlb''" and key = "''baseball_mlb''"
      and api_key = True and fetch = no_games and parse = fromisoformat_utc and utcoffset = tz_utc
      and now = sample_now and today = ?today and date_text = "''Jun 01''" and lines = plain_line
      and rest = "[]"]
  note g = th [THEN conjunct2, THEN conjunct2, THEN conjunct2, THEN conjunct1]
  note s1 = th [THEN conjunct2, THEN conjunct2, THEN conjunct2, THEN conjunct2, THEN conjunct1]
  have t: "?today ''mlb'' = Inr []"
    using g h by (rule mp)
  have c: "cmd_today True ''Jun 01'' ?today plain_line [''mlb''] = Inr [''No MLB games today.'']"
    using s1 t by (rule mp)
  from h t c show ?thesis by simp
qed

text \<open>
  The claim as stated fails for \<open>/today all\<close>: with three empty lists no placeholder of a
  sport is rendered, and with games for the NFL only the blocks of the other two sports
  are left out.
\<close>

theorem cmd_today_all_counterexample:
  "cmd_today True ''Jun 01'' (get_today_by_league fromisoformat_utc tz_utc sample_now True no_games)
      plain_line [''all''] = Inr [''No events today (Jun 01).'']
   \<and> only_nfl ''mlb'' = Inr []
   \<and> cmd_today True ''Dec 01'' only_nfl plain_line [''all''] = Inr [''*NFL Today*'' @ newline @ ''line'']"
proof -
  let ?today = "get_today_by_league fromisoformat_utc tz_utc sample_now True no_games"
  have t: "?today ''mlb'' = Inr []" "?today ''nfl'' = Inr []" "?today ''ufc'' = Inr []"
    by (simp_all add: get_today_empty SPORT_KEYS_def no_games_def)
  have c1: "cmd_today True ''Jun 01'' ?today plain_line [''all''] = Inr [''No events today (Jun 01).'']"
    using cmd_today_all [OF t, of "''Jun 01''" plain_line "[]"] by simp
  have o: "only_nfl ''mlb'' = Inr []"
    "only_nfl ''nfl'' = Inr [game_at ''Green Bay Packers'' ''Chicago Bears'' (Some ''2024-12-01T18:00:00Z'')]"
    "only_nfl ''ufc'' = Inr []"
    by (simp_all add: only_nfl_def)
  have c2: "cmd_today True ''Dec 01'' only_nfl plain_line [''all''] = Inr [''*NFL Today*'' @ newline @ ''line'']"
    using cmd_today_all [OF o, of "''Dec 01''" plain_line "[]"]
    by (simp add: block_nfl_def plain_line_def)
  from c1 o(1) c2 show ?thesis by (intro conjI)
qed

end
